theory Spec2Isabelle
  imports Complex_Main
begin

section \<open>Data model\<close>

text \<open>
  The repository's source is the how-to notebook
  \<^verbatim>\<open>docs/how_tos/use_oo_to_optimize_hamiltonian_basis.ipynb\<close>: the self-consistent
  configuration-recovery loop, the choice of the best batch and the call of the orbital
  optimizer. A bitstring is a row of bits, a bitstring matrix a list of rows with a
  parallel list of probabilities. Energies, occupancies and probabilities are numpy floats,
  read here as real numbers.
\<close>

type_synonym bitstring = "bool list"
type_synonym bitstring_matrix = "bitstring list"
type_synonym probs = "real list"
type_synonym occupancy = "real list"
type_synonym one_body = "real list list"
type_synonym two_body = "real list list list list"

text \<open>
  Python exceptions are values. The first two are the failures the specification names for
  postselection and for the eigensolver; the others are the interpreter's own.
\<close>

datatype error =
    EmptySubspaceError
  | EigensolveNonConvergence
  | ValueError
  | IndexError
  | NameError
  | TypeError

text \<open>
  The notebook's settings: the molecule's numbers and the rotated integrals of the first two
  code cells, the options of the configuration-recovery cell, and the options of the
  orbital-optimization cell.
\<close>

record config =
  iterations :: nat
  n_batches :: nat
  samples_per_batch :: nat
  max_davidson_cycles :: nat
  num_orbitals :: nat
  num_elec_a :: nat
  num_elec_b :: nat
  open_shell :: bool
  spin_sq :: real
  hcore_rot :: one_body
  eri_rot :: two_body
  nuclear_repulsion_energy :: real
  num_iters :: nat
  num_steps_grad :: nat
  learning_rate :: real

text \<open>
  The functions the notebook imports from \<^verbatim>\<open>qiskit_addon_sqd\<close> and the generator's
  \<^verbatim>\<open>random\<close>, whose code is not part of the sources. They are parameters of the model,
  in the argument order of the notebook's calls. The generator \<^verbatim>\<open>rng\<close> is one mutable
  object that the calls given it advance; such a call takes its state and returns the new
  one. A call may raise: it returns a sum.
\<close>

record 'g library =
  recover_configurations ::
    "bitstring_matrix \<Rightarrow> probs \<Rightarrow> occupancy \<Rightarrow> nat \<Rightarrow> nat \<Rightarrow> 'g
      \<Rightarrow> error + ((bitstring_matrix \<times> probs) \<times> 'g)"
  postselect_and_subsample ::
    "bitstring_matrix \<Rightarrow> probs \<Rightarrow> nat \<Rightarrow> nat \<Rightarrow> nat \<Rightarrow> nat \<Rightarrow> 'g
      \<Rightarrow> error + (bitstring_matrix list \<times> 'g)"
  solve_fermion ::
    "bitstring_matrix \<Rightarrow> one_body \<Rightarrow> two_body \<Rightarrow> bool \<Rightarrow> real \<Rightarrow> nat
      \<Rightarrow> error + (real \<times> real list \<times> occupancy \<times> real)"
  optimize_orbitals ::
    "bitstring_matrix \<Rightarrow> one_body \<Rightarrow> two_body \<Rightarrow> real list \<Rightarrow> bool \<Rightarrow> real
      \<Rightarrow> nat \<Rightarrow> nat \<Rightarrow> real \<Rightarrow> nat \<Rightarrow> error + (real \<times> real list \<times> occupancy)"
  rng_random :: "'g \<Rightarrow> nat \<Rightarrow> real list \<times> 'g"

text \<open>
  The variables of the configuration-recovery cell. \<^verbatim>\<open>batches\<close> is unbound until the
  first round assigns it; \<^verbatim>\<open>avg_occupancy\<close> starts as \<^verbatim>\<open>None\<close>.
\<close>

record 'g sqd_state =
  bitstring_matrix_full :: bitstring_matrix
  probs_arr_full :: probs
  rng :: 'g
  avg_occupancy :: "occupancy option"
  batches :: "bitstring_matrix list option"
  e_hist :: "real list list"
  s_hist :: "real list list"
  occupancy_hist :: "occupancy list"

definition init_state :: "config \<Rightarrow> bitstring_matrix \<Rightarrow> probs \<Rightarrow> 'g \<Rightarrow> 'g sqd_state" where
  "init_state C bs ps g =
     \<lparr> bitstring_matrix_full = bs, probs_arr_full = ps, rng = g,
       avg_occupancy = None, batches = None,
       e_hist = replicate (iterations C) (replicate (n_batches C) 0),
       s_hist = replicate (iterations C) (replicate (n_batches C) 0),
       occupancy_hist = [] \<rparr>"

section \<open>One round of the self-consistent loop\<close>

text \<open>
  The branch on \<^verbatim>\<open>avg_occupancy is None\<close>: the first round hands the full matrix on,
  later rounds call \<^verbatim>\<open>recover_configurations\<close> on the full matrix with the averaged
  occupancy of the round before.
\<close>

definition recovery_stage ::
  "'g library \<Rightarrow> config \<Rightarrow> 'g sqd_state \<Rightarrow> error + ((bitstring_matrix \<times> probs) \<times> 'g)" where
  "recovery_stage L C s =
     (case avg_occupancy s of
        None \<Rightarrow> Inr ((bitstring_matrix_full s, probs_arr_full s), rng s)
      | Some occ \<Rightarrow>
          recover_configurations L (bitstring_matrix_full s) (probs_arr_full s) occ
            (num_elec_a C) (num_elec_b C) (rng s))"

text \<open>
  The loop over \<^verbatim>\<open>j in range(n_batches)\<close>. Nothing catches what \<^verbatim>\<open>solve_fermion\<close>
  raises, so the first failing batch ends the loop with its error. The accumulators are
  \<^verbatim>\<open>int_e\<close>, \<^verbatim>\<open>int_s\<close>, \<^verbatim>\<open>int_occs\<close> and \<^verbatim>\<open>cs\<close>; indexing
  \<^verbatim>\<open>batches\<close>, \<^verbatim>\<open>int_e\<close> or \<^verbatim>\<open>int_s\<close> out of range raises.
\<close>

type_synonym solve_acc = "real list \<times> real list \<times> occupancy list \<times> real list list"

fun solve_batches ::
  "'g library \<Rightarrow> config \<Rightarrow> bitstring_matrix list \<Rightarrow> nat list \<Rightarrow> solve_acc \<Rightarrow> error + solve_acc" where
  "solve_batches L C bts [] acc = Inr acc"
| "solve_batches L C bts (j # js) (int_e, int_s, int_occs, cs) =
     (if length bts \<le> j then Inl IndexError
      else case solve_fermion L (bts ! j) (hcore_rot C) (eri_rot C) (open_shell C) (spin_sq C)
                  (max_davidson_cycles C) of
             Inl e \<Rightarrow> Inl e
           | Inr (energy_sci, coeffs_sci, avg_occs, spin) \<Rightarrow>
               if length int_e \<le> j \<or> length int_s \<le> j then Inl IndexError
               else solve_batches L C bts js
                      (int_e[j := energy_sci + nuclear_repulsion_energy C], int_s[j := spin],
                       int_occs @ [avg_occs], cs @ [coeffs_sci]))"

text \<open>
  \<^verbatim>\<open>tuple(np.mean(int_occs, axis=0))\<close>: the mean over the batches, orbital by orbital.
  On an empty list numpy returns a scalar and \<^verbatim>\<open>tuple\<close> raises; on vectors of
  different lengths numpy raises.
\<close>

definition mean_axis0 :: "occupancy list \<Rightarrow> error + occupancy" where
  "mean_axis0 int_occs =
     (case int_occs of
        [] \<Rightarrow> Inl TypeError
      | v # vs \<Rightarrow>
          if list_all (\<lambda>w. length w = length v) vs
          then Inr (map (\<lambda>k. sum_list (map (\<lambda>w. w ! k) int_occs) / real (length int_occs))
                      [0..<length v])
          else Inl ValueError)"

text \<open>
  \<^verbatim>\<open>e_hist[i, :] = int_e\<close>: row \<open>i\<close> of a two-dimensional array is overwritten.
  numpy raises IndexError when the array has no row \<open>i\<close>, and ValueError when the
  vector cannot be broadcast to the row: its length is neither the row's nor one. A vector
  of length one fills the row.
\<close>

definition set_row :: "real list list \<Rightarrow> nat \<Rightarrow> real list \<Rightarrow> error + real list list" where
  "set_row hist i v =
     (if length hist \<le> i then Inl IndexError
      else if length v = length (hist ! i) then Inr (hist[i := v])
      else if length v = 1 then Inr (hist[i := replicate (length (hist ! i)) (hd v)])
      else Inl ValueError)"

text \<open>Everything of a round after the recovery branch, given what that branch produced.\<close>

definition round_tail ::
  "'g library \<Rightarrow> config \<Rightarrow> nat \<Rightarrow> 'g sqd_state \<Rightarrow> bitstring_matrix \<Rightarrow> probs \<Rightarrow> 'g
     \<Rightarrow> error + 'g sqd_state" where
  "round_tail L C i s bs_mat_tmp probs_arr_tmp g =
     (case postselect_and_subsample L bs_mat_tmp probs_arr_tmp
             (num_elec_a C) (num_elec_b C) (samples_per_batch C) (n_batches C) g of
        Inl e \<Rightarrow> Inl e
      | Inr (bts, g') \<Rightarrow>
          (case solve_batches L C bts [0..<n_batches C]
                  (replicate (n_batches C) 0, replicate (n_batches C) 0, [], []) of
             Inl e \<Rightarrow> Inl e
           | Inr (int_e, int_s, int_occs, cs) \<Rightarrow>
               (case mean_axis0 int_occs of
                  Inl e \<Rightarrow> Inl e
                | Inr m \<Rightarrow>
                    (case set_row (e_hist s) i int_e of
                       Inl e \<Rightarrow> Inl e
                     | Inr e_hist' \<Rightarrow>
                         (case set_row (s_hist s) i int_s of
                            Inl e \<Rightarrow> Inl e
                          | Inr s_hist' \<Rightarrow>
                              Inr (s\<lparr> rng := g', avg_occupancy := Some m, batches := Some bts,
                                     e_hist := e_hist', s_hist := s_hist',
                                     occupancy_hist := occupancy_hist s @ [m] \<rparr>))))))"

definition sqd_round :: "'g library \<Rightarrow> config \<Rightarrow> nat \<Rightarrow> 'g sqd_state \<Rightarrow> error + 'g sqd_state" where
  "sqd_round L C i s =
     (case recovery_stage L C s of
        Inl e \<Rightarrow> Inl e
      | Inr ((bs_mat_tmp, probs_arr_tmp), g) \<Rightarrow> round_tail L C i s bs_mat_tmp probs_arr_tmp g)"

text \<open>\<^verbatim>\<open>for i in range(iterations)\<close>: the rounds in order, ended by the first error.\<close>

fun sqd_loop :: "'g library \<Rightarrow> config \<Rightarrow> nat list \<Rightarrow> 'g sqd_state \<Rightarrow> error + 'g sqd_state" where
  "sqd_loop L C [] s = Inr s"
| "sqd_loop L C (i # is) s =
     (case sqd_round L C i s of Inl e \<Rightarrow> Inl e | Inr s' \<Rightarrow> sqd_loop L C is s')"

definition run_sqd ::
  "'g library \<Rightarrow> config \<Rightarrow> bitstring_matrix \<Rightarrow> probs \<Rightarrow> 'g \<Rightarrow> error + 'g sqd_state" where
  "run_sqd L C bs ps g = sqd_loop L C [0..<iterations C] (init_state C bs ps g)"

section \<open>Choosing the best batch and optimizing the orbitals\<close>

text \<open>\<^verbatim>\<open>np.argmin\<close>: the index of the first occurrence of the least entry.\<close>

fun argmin :: "real list \<Rightarrow> nat" where
  "argmin [] = 0"
| "argmin [x] = 0"
| "argmin (x # y # ys) =
     (let k = argmin (y # ys) in if x \<le> (y # ys) ! k then 0 else Suc k)"

text \<open>
  \<^verbatim>\<open>best_batch = batches[np.argmin(e_hist[-1])]\<close>. The name \<^verbatim>\<open>batches\<close> is unbound when
  the loop never ran, the last row of an empty history does not exist, and
  \<^verbatim>\<open>np.argmin\<close> raises on an empty row.
\<close>

definition best_batch :: "'g sqd_state \<Rightarrow> error + bitstring_matrix" where
  "best_batch s =
     (case batches s of
        None \<Rightarrow> Inl NameError
      | Some bts \<Rightarrow>
          if e_hist s = [] then Inl IndexError
          else if last (e_hist s) = [] then Inl ValueError
          else (let k = argmin (last (e_hist s))
                in if k < length bts then Inr (bts ! k) else Inl IndexError))"

text \<open>
  The orbital-optimization cell: \<^verbatim>\<open>k_flat = (rng.random(num_params) - 0.5) * 0.01\<close> with
  \<^verbatim>\<open>num_params = num_orbitals**2\<close>, then \<^verbatim>\<open>optimize_orbitals(best_batch, ...)\<close>.
\<close>

definition orbital_optimization ::
  "'g library \<Rightarrow> config \<Rightarrow> 'g sqd_state \<Rightarrow> error + ((real \<times> real list \<times> occupancy) \<times> 'g)" where
  "orbital_optimization L C s =
     (case best_batch s of
        Inl e \<Rightarrow> Inl e
      | Inr b \<Rightarrow>
          (case rng_random L (rng s) ((num_orbitals C)\<^sup>2) of
             (r, g') \<Rightarrow>
               (case optimize_orbitals L b (hcore_rot C) (eri_rot C)
                       (map (\<lambda>x. (x - 1 / 2) * (1 / 100)) r) (open_shell C) (spin_sq C)
                       (num_iters C) (num_steps_grad C) (learning_rate C)
                       (max_davidson_cycles C) of
                  Inl e \<Rightarrow> Inl e
                | Inr res \<Rightarrow> Inr (res, g'))))"

text \<open>The eigensolve of one batch with the notebook's fixed arguments, and its parts.\<close>

definition solve_one ::
  "'g library \<Rightarrow> config \<Rightarrow> bitstring_matrix \<Rightarrow> error + (real \<times> real list \<times> occupancy \<times> real)" where
  "solve_one L C b =
     solve_fermion L b (hcore_rot C) (eri_rot C) (open_shell C) (spin_sq C)
       (max_davidson_cycles C)"

definition converged :: "error + (real \<times> real list \<times> occupancy \<times> real) \<Rightarrow> bool" where
  "converged r = (case r of Inl e \<Rightarrow> False | Inr x \<Rightarrow> True)"

definition occupancy_of :: "error + (real \<times> real list \<times> occupancy \<times> real) \<Rightarrow> occupancy" where
  "occupancy_of r = (case r of Inl e \<Rightarrow> [] | Inr (energy_sci, coeffs_sci, avg_occs, spin) \<Rightarrow> avg_occs)"

definition energy_of :: "error + (real \<times> real list \<times> occupancy \<times> real) \<Rightarrow> real" where
  "energy_of r = (case r of Inl e \<Rightarrow> 0 | Inr (energy_sci, coeffs_sci, avg_occs, spin) \<Rightarrow> energy_sci)"

section \<open>Bitstring halves and Hamming weight\<close>

definition left_half :: "bitstring \<Rightarrow> bitstring" where
  "left_half row = take (length row div 2) row"

definition right_half :: "bitstring \<Rightarrow> bitstring" where
  "right_half row = drop (length row div 2) row"

definition popcount :: "bitstring \<Rightarrow> nat" where
  "popcount bits = length (filter (\<lambda>b. b) bits)"

text \<open>
  The notebook binds \<^verbatim>\<open>hamming_right=num_elec_a\<close> and \<^verbatim>\<open>hamming_left=num_elec_b\<close>:
  the right half of a row is the spin-up sector, the left half the spin-down sector.
\<close>

definition hamming_ok :: "nat \<Rightarrow> nat \<Rightarrow> bitstring \<Rightarrow> bool" where
  "hamming_ok hamming_right hamming_left row \<longleftrightarrow>
     popcount (right_half row) = hamming_right \<and> popcount (left_half row) = hamming_left"

section \<open>Postselection and subsampling as the specification describes them\<close>

text \<open>
  Modelled from the spec: the Hamming postselection inside
  \<^verbatim>\<open>postselect_and_subsample\<close>, whose body is missing from the sources (the notebook
  only calls it; the deprecation notice in its output names the two parts
  \<^verbatim>\<open>postselect_by_hamming_right_and_left\<close> and \<^verbatim>\<open>subsample\<close>). Section 4.2: the
  output is the subset of rows whose halves have exactly the target populations, the
  probabilities of the kept rows left as relative weights; when no row satisfies the
  constraint the round fails with the unrecoverable-sample-set error.
\<close>

definition postselect_by_hamming_right_and_left ::
  "bitstring_matrix \<Rightarrow> probs \<Rightarrow> nat \<Rightarrow> nat \<Rightarrow> error + (bitstring_matrix \<times> probs)" where
  "postselect_by_hamming_right_and_left bitstring_matrix probabilities hamming_right hamming_left =
     (let mask = map (hamming_ok hamming_right hamming_left) bitstring_matrix;
          bs_mat_postsel = filter (hamming_ok hamming_right hamming_left) bitstring_matrix;
          probs_postsel = map snd (filter fst (zip mask probabilities))
      in if bs_mat_postsel = [] then Inl EmptySubspaceError
         else Inr (bs_mat_postsel, probs_postsel))"

text \<open>
  Modelled from the spec: the batch sampler of section 4.3, also missing from the sources.
  Each batch is \<^verbatim>\<open>samples_per_batch\<close> draws with replacement (the spec's safe default)
  from the postselected rows, weighted by their probabilities; the generator's state is
  threaded through every draw. numpy's \<^verbatim>\<open>choice\<close> returns an index below the population
  size; the drawn number is reduced modulo that size so that this holds of every
  \<open>choice\<close>. An empty pool has no row to draw: it is the failure of postselection.
\<close>

fun draw_rows ::
  "('g \<Rightarrow> probs \<Rightarrow> nat \<times> 'g) \<Rightarrow> bitstring_matrix \<Rightarrow> probs \<Rightarrow> nat \<Rightarrow> 'g
     \<Rightarrow> bitstring_matrix \<times> 'g" where
  "draw_rows choice rows ps 0 g = ([], g)"
| "draw_rows choice rows ps (Suc k) g =
     (case choice g ps of (i, g1) \<Rightarrow>
        (case draw_rows choice rows ps k g1 of (rest, g2) \<Rightarrow>
           (rows ! (i mod length rows) # rest, g2)))"

text \<open>
  Modelled from the spec: the \<^verbatim>\<open>num_batches\<close> independent batches of section 4.3, drawn
  one after the other from the same pool.
\<close>

fun draw_batches ::
  "('g \<Rightarrow> probs \<Rightarrow> nat \<times> 'g) \<Rightarrow> bitstring_matrix \<Rightarrow> probs \<Rightarrow> nat \<Rightarrow> nat \<Rightarrow> 'g
     \<Rightarrow> bitstring_matrix list \<times> 'g" where
  "draw_batches choice rows ps spb 0 g = ([], g)"
| "draw_batches choice rows ps spb (Suc k) g =
     (case draw_rows choice rows ps spb g of (b, g1) \<Rightarrow>
        (case draw_batches choice rows ps spb k g1 of (rest, g2) \<Rightarrow> (b # rest, g2)))"

text \<open>
  Modelled from the spec: \<^verbatim>\<open>subsample\<close>, the batch sampler on a postselected pool
  (section 4.3), its body missing from the sources like the others.
\<close>

definition subsample ::
  "('g \<Rightarrow> probs \<Rightarrow> nat \<times> 'g) \<Rightarrow> bitstring_matrix \<Rightarrow> probs \<Rightarrow> nat \<Rightarrow> nat \<Rightarrow> 'g
     \<Rightarrow> error + (bitstring_matrix list \<times> 'g)" where
  "subsample choice bitstring_matrix probabilities spb num_batches g =
     (if bitstring_matrix = [] then Inl EmptySubspaceError
      else Inr (draw_batches choice bitstring_matrix probabilities spb num_batches g))"

text \<open>
  Modelled from the spec: \<^verbatim>\<open>postselect_and_subsample\<close> as sections 4.2 and 4.3
  describe it, postselection followed by subsampling. \<open>choice\<close> is the generator's
  draw of one index with the given weights.
\<close>

definition postselect_and_subsample_spec ::
  "('g \<Rightarrow> probs \<Rightarrow> nat \<times> 'g) \<Rightarrow> bitstring_matrix \<Rightarrow> probs \<Rightarrow> nat \<Rightarrow> nat \<Rightarrow> nat \<Rightarrow> nat \<Rightarrow> 'g
     \<Rightarrow> error + (bitstring_matrix list \<times> 'g)" where
  "postselect_and_subsample_spec choice bitstring_matrix probabilities
       hamming_right hamming_left spb num_batches g =
     (case postselect_by_hamming_right_and_left bitstring_matrix probabilities
             hamming_right hamming_left of
        Inl e \<Rightarrow> Inl e
      | Inr (bs_mat_postsel, probs_postsel) \<Rightarrow>
          subsample choice bs_mat_postsel probs_postsel spb num_batches g)"

section \<open>The cells over the interpreter's objects\<close>

text \<open>
  Whether a run can be repeated, and whether an array is ever written to, depends on what
  the reading above leaves out. A numpy array and the generator are objects; a name holds a
  reference to one and a call is handed references, so it may write to any object; and a
  call may consult what is no object of the interpreter, such as the entropy of the
  operating system from which numpy seeds a generator that is given no seed. The cells from
  the seeding of the generator to the end of the loop are therefore embedded a second time,
  over a heap of objects and a hidden part of the process.
\<close>

type_synonym ref = nat

datatype 'g object = Bits bitstring_matrix | Reals "real list" | Generator 'g

record ('g, 'x) world =
  heap :: "'g object list"
  hidden :: 'x

text \<open>The counts dictionary of the sampling cell: bitstrings with their counts.\<close>

type_synonym counts = "(bitstring \<times> nat) list"

text \<open>
  The calls of these cells, again as parameters: \<^verbatim>\<open>np.random.default_rng\<close> and the
  generator's \<^verbatim>\<open>random\<close>, and the functions of \<^verbatim>\<open>qiskit_addon_sqd\<close>. Each takes the
  process as it is and returns it as the call leaves it. Bitstring matrices, probability
  arrays and the generator are passed and returned by reference. \<^verbatim>\<open>rand_seed\<close> is a
  reference to a generator, or \<^verbatim>\<open>None\<close>; the seed of \<^verbatim>\<open>default_rng\<close> is a number, or
  \<^verbatim>\<open>None\<close>. The integrals and the tuples of floats are read as values.
\<close>

record ('g, 'x) library_h =
  default_rng_h :: "nat option \<Rightarrow> ('g, 'x) world \<Rightarrow> ref \<times> ('g, 'x) world"
  random_h :: "ref \<Rightarrow> nat \<Rightarrow> ('g, 'x) world \<Rightarrow> real list \<times> ('g, 'x) world"
  rotate_integrals_h ::
    "one_body \<Rightarrow> two_body \<Rightarrow> real list \<Rightarrow> ('g, 'x) world
      \<Rightarrow> error + ((one_body \<times> two_body) \<times> ('g, 'x) world)"
  generate_counts_uniform_h ::
    "nat \<Rightarrow> nat \<Rightarrow> ref option \<Rightarrow> ('g, 'x) world \<Rightarrow> error + (counts \<times> ('g, 'x) world)"
  counts_to_arrays_h ::
    "counts \<Rightarrow> ('g, 'x) world \<Rightarrow> error + ((ref \<times> ref) \<times> ('g, 'x) world)"
  recover_configurations_h ::
    "ref \<Rightarrow> ref \<Rightarrow> occupancy \<Rightarrow> nat \<Rightarrow> nat \<Rightarrow> ref option \<Rightarrow> ('g, 'x) world
      \<Rightarrow> error + ((ref \<times> ref) \<times> ('g, 'x) world)"
  postselect_and_subsample_h ::
    "ref \<Rightarrow> ref \<Rightarrow> nat \<Rightarrow> nat \<Rightarrow> nat \<Rightarrow> nat \<Rightarrow> ref option \<Rightarrow> ('g, 'x) world
      \<Rightarrow> error + (ref list \<times> ('g, 'x) world)"
  solve_fermion_h ::
    "ref \<Rightarrow> one_body \<Rightarrow> two_body \<Rightarrow> bool \<Rightarrow> real \<Rightarrow> nat \<Rightarrow> ('g, 'x) world
      \<Rightarrow> error + ((real \<times> real list \<times> occupancy \<times> real) \<times> ('g, 'x) world)"

text \<open>
  The names of the loop's cell. The raw arrays, the generator, the recovered arrays and the
  batches are references; \<^verbatim>\<open>bs_mat_tmp\<close>, \<^verbatim>\<open>probs_arr_tmp\<close> and \<^verbatim>\<open>batches\<close> are
  unbound until the first round. The histories are arrays the cell creates with
  \<^verbatim>\<open>np.zeros\<close> and hands to no call: they are kept as values.
\<close>

record ('g, 'x) state_h =
  process :: "('g, 'x) world"
  bitstring_matrix_full_h :: ref
  probs_arr_full_h :: ref
  rng_h :: ref
  avg_occupancy_h :: "occupancy option"
  bs_mat_tmp_h :: "ref option"
  probs_arr_tmp_h :: "ref option"
  batches_h :: "ref list option"
  e_hist_h :: "real list list"
  s_hist_h :: "real list list"
  occupancy_hist_h :: "occupancy list"

text \<open>
  The rotation cell: \<^verbatim>\<open>rng = np.random.default_rng(24)\<close>, the draw of \<^verbatim>\<open>k_rot\<close> and
  \<^verbatim>\<open>rotate_integrals(hcore, eri, k_rot)\<close>, which binds the rotated integrals. The seed is
  an argument; the notebook's is 24.
\<close>

definition rotation_cell ::
  "('g, 'x) library_h \<Rightarrow> config \<Rightarrow> one_body \<Rightarrow> two_body \<Rightarrow> nat \<Rightarrow> ('g, 'x) world
     \<Rightarrow> error + ((config \<times> ref) \<times> ('g, 'x) world)" where
  "rotation_cell L C hcore eri seed w =
     (case default_rng_h L (Some seed) w of
        (rng_ref, w1) \<Rightarrow>
          (case random_h L rng_ref ((num_orbitals C)\<^sup>2) w1 of
             (r, w2) \<Rightarrow>
               (case rotate_integrals_h L hcore eri (map (\<lambda>x. (x - 1 / 2) * (1 / 2)) r) w2 of
                  Inl e \<Rightarrow> Inl e
                | Inr ((hcore_rot', eri_rot'), w3) \<Rightarrow>
                    Inr ((C\<lparr> hcore_rot := hcore_rot', eri_rot := eri_rot' \<rparr>, rng_ref), w3))))"

text \<open>
  The sampling cell: \<^verbatim>\<open>generate_counts_uniform(10_000, num_orbitals * 2, rand_seed=rng)\<close>
  and \<^verbatim>\<open>counts_to_arrays\<close>, which binds the raw bitstring matrix and its probabilities.
\<close>

definition sampling_cell ::
  "('g, 'x) library_h \<Rightarrow> config \<Rightarrow> ref \<Rightarrow> ('g, 'x) world
     \<Rightarrow> error + ((ref \<times> ref) \<times> ('g, 'x) world)" where
  "sampling_cell L C rng_ref w =
     (case generate_counts_uniform_h L 10000 (num_orbitals C * 2) (Some rng_ref) w of
        Inl e \<Rightarrow> Inl e
      | Inr (counts_dict, w1) \<Rightarrow> counts_to_arrays_h L counts_dict w1)"

text \<open>The names as the loop's cell finds and initialises them.\<close>

definition init_state_h ::
  "config \<Rightarrow> ref \<Rightarrow> ref \<Rightarrow> ref \<Rightarrow> ('g, 'x) world \<Rightarrow> ('g, 'x) state_h" where
  "init_state_h C bs ps g w =
     \<lparr> process = w, bitstring_matrix_full_h = bs, probs_arr_full_h = ps, rng_h = g,
       avg_occupancy_h = None, bs_mat_tmp_h = None, probs_arr_tmp_h = None, batches_h = None,
       e_hist_h = replicate (iterations C) (replicate (n_batches C) 0),
       s_hist_h = replicate (iterations C) (replicate (n_batches C) 0),
       occupancy_hist_h = [] \<rparr>"

text \<open>
  The branch on \<^verbatim>\<open>avg_occupancy is None\<close>. In the first round \<^verbatim>\<open>bs_mat_tmp\<close> and
  \<^verbatim>\<open>probs_arr_tmp\<close> are bound to the raw arrays themselves, not to copies; later
  \<^verbatim>\<open>recover_configurations\<close> is handed the raw arrays and the generator.
\<close>

definition recovery_stage_h ::
  "('g, 'x) library_h \<Rightarrow> config \<Rightarrow> ('g, 'x) state_h
     \<Rightarrow> error + ((ref \<times> ref) \<times> ('g, 'x) world)" where
  "recovery_stage_h L C s =
     (case avg_occupancy_h s of
        None \<Rightarrow> Inr ((bitstring_matrix_full_h s, probs_arr_full_h s), process s)
      | Some occ \<Rightarrow>
          recover_configurations_h L (bitstring_matrix_full_h s) (probs_arr_full_h s) occ
            (num_elec_a C) (num_elec_b C) (Some (rng_h s)) (process s))"

text \<open>The loop over the batches, each \<^verbatim>\<open>solve_fermion\<close> handed the batch \<^verbatim>\<open>batches[j]\<close>.\<close>

fun solve_batches_h ::
  "('g, 'x) library_h \<Rightarrow> config \<Rightarrow> ref list \<Rightarrow> nat list \<Rightarrow> solve_acc \<Rightarrow> ('g, 'x) world
     \<Rightarrow> error + (solve_acc \<times> ('g, 'x) world)" where
  "solve_batches_h L C bts [] acc w = Inr (acc, w)"
| "solve_batches_h L C bts (j # js) (int_e, int_s, int_occs, cs) w =
     (if length bts \<le> j then Inl IndexError
      else case solve_fermion_h L (bts ! j) (hcore_rot C) (eri_rot C) (open_shell C) (spin_sq C)
                  (max_davidson_cycles C) w of
             Inl e \<Rightarrow> Inl e
           | Inr ((energy_sci, coeffs_sci, avg_occs, spin), w') \<Rightarrow>
               if length int_e \<le> j \<or> length int_s \<le> j then Inl IndexError
               else solve_batches_h L C bts js
                      (int_e[j := energy_sci + nuclear_repulsion_energy C], int_s[j := spin],
                       int_occs @ [avg_occs], cs @ [coeffs_sci]) w')"

text \<open>The rest of a round, given the arrays the recovery branch bound.\<close>

definition round_tail_h ::
  "('g, 'x) library_h \<Rightarrow> config \<Rightarrow> nat \<Rightarrow> ('g, 'x) state_h \<Rightarrow> ref \<Rightarrow> ref \<Rightarrow> ('g, 'x) world
     \<Rightarrow> error + ('g, 'x) state_h" where
  "round_tail_h L C i s bs_mat_tmp probs_arr_tmp w =
     (case postselect_and_subsample_h L bs_mat_tmp probs_arr_tmp
             (num_elec_a C) (num_elec_b C) (samples_per_batch C) (n_batches C)
             (Some (rng_h s)) w of
        Inl e \<Rightarrow> Inl e
      | Inr (bts, w1) \<Rightarrow>
          (case solve_batches_h L C bts [0..<n_batches C]
                  (replicate (n_batches C) 0, replicate (n_batches C) 0, [], []) w1 of
             Inl e \<Rightarrow> Inl e
           | Inr ((int_e, int_s, int_occs, cs), w2) \<Rightarrow>
               (case mean_axis0 int_occs of
                  Inl e \<Rightarrow> Inl e
                | Inr m \<Rightarrow>
                    (case set_row (e_hist_h s) i int_e of
                       Inl e \<Rightarrow> Inl e
                     | Inr e_hist' \<Rightarrow>
                         (case set_row (s_hist_h s) i int_s of
                            Inl e \<Rightarrow> Inl e
                          | Inr s_hist' \<Rightarrow>
                              Inr (s\<lparr> process := w2, avg_occupancy_h := Some m,
                                     bs_mat_tmp_h := Some bs_mat_tmp,
                                     probs_arr_tmp_h := Some probs_arr_tmp,
                                     batches_h := Some bts,
                                     e_hist_h := e_hist', s_hist_h := s_hist',
                                     occupancy_hist_h := occupancy_hist_h s @ [m] \<rparr>))))))"

definition sqd_round_h ::
  "('g, 'x) library_h \<Rightarrow> config \<Rightarrow> nat \<Rightarrow> ('g, 'x) state_h \<Rightarrow> error + ('g, 'x) state_h" where
  "sqd_round_h L C i s =
     (case recovery_stage_h L C s of
        Inl e \<Rightarrow> Inl e
      | Inr ((bs_mat_tmp, probs_arr_tmp), w) \<Rightarrow> round_tail_h L C i s bs_mat_tmp probs_arr_tmp w)"

fun sqd_loop_h ::
  "('g, 'x) library_h \<Rightarrow> config \<Rightarrow> nat list \<Rightarrow> ('g, 'x) state_h \<Rightarrow> error + ('g, 'x) state_h" where
  "sqd_loop_h L C [] s = Inr s"
| "sqd_loop_h L C (i # is) s =
     (case sqd_round_h L C i s of Inl e \<Rightarrow> Inl e | Inr s' \<Rightarrow> sqd_loop_h L C is s')"

text \<open>
  The three cells in order, the loop over the given rounds: all of them,
  \<open>[0..<iterations C]\<close>, for the notebook, the first \<open>k\<close> for the state after
  \<open>k\<close> rounds. The result is the configuration with the rotated integrals and the
  names of the loop's cell.
\<close>

definition cells_h ::
  "('g, 'x) library_h \<Rightarrow> config \<Rightarrow> one_body \<Rightarrow> two_body \<Rightarrow> nat \<Rightarrow> nat list \<Rightarrow> ('g, 'x) world
     \<Rightarrow> error + (config \<times> ('g, 'x) state_h)" where
  "cells_h L C hcore eri seed rounds w =
     (case rotation_cell L C hcore eri seed w of
        Inl e \<Rightarrow> Inl e
      | Inr ((C', rng_ref), w1) \<Rightarrow>
          (case sampling_cell L C' rng_ref w1 of
             Inl e \<Rightarrow> Inl e
           | Inr ((bs, ps), w2) \<Rightarrow>
               (case sqd_loop_h L C' rounds (init_state_h C' bs ps rng_ref w2) of
                  Inl e \<Rightarrow> Inl e
                | Inr s \<Rightarrow> Inr (C', s))))"

definition run_cells_h ::
  "('g, 'x) library_h \<Rightarrow> config \<Rightarrow> one_body \<Rightarrow> two_body \<Rightarrow> nat \<Rightarrow> ('g, 'x) world
     \<Rightarrow> error + (config \<times> ('g, 'x) state_h)" where
  "run_cells_h L C hcore eri seed w = cells_h L C hcore eri seed [0..<iterations C] w"

subsection \<open>What can be seen of a run\<close>

text \<open>The object a reference points to, if there is one.\<close>

definition object_at :: "('g, 'x) world \<Rightarrow> ref \<Rightarrow> 'g object option" where
  "object_at w r = (if r < length (heap w) then Some (heap w ! r) else None)"

text \<open>Everything of the loop's cell but the hidden part of the process.\<close>

definition view ::
  "('g, 'x) state_h \<Rightarrow>
     'g object list \<times> (ref \<times> ref \<times> ref) \<times> occupancy option \<times>
     (ref option \<times> ref option \<times> ref list option) \<times>
     real list list \<times> real list list \<times> occupancy list" where
  "view s =
     (heap (process s),
      (bitstring_matrix_full_h s, probs_arr_full_h s, rng_h s), avg_occupancy_h s,
      (bs_mat_tmp_h s, probs_arr_tmp_h s, batches_h s),
      e_hist_h s, s_hist_h s, occupancy_hist_h s)"

text \<open>
  The arrays of the round that starts in a state: the bitstring matrix and the probability
  array as the recovery branch leaves them, and the batches as postselection and subsampling
  leave them; or the error that ends the round before.
\<close>

definition stage_arrays ::
  "('g, 'x) library_h \<Rightarrow> config \<Rightarrow> ('g, 'x) state_h
     \<Rightarrow> error + (('g object option \<times> 'g object option) \<times> 'g object option list)" where
  "stage_arrays L C s =
     (case recovery_stage_h L C s of
        Inl e \<Rightarrow> Inl e
      | Inr ((bs_mat_tmp, probs_arr_tmp), w) \<Rightarrow>
          (case postselect_and_subsample_h L bs_mat_tmp probs_arr_tmp
                  (num_elec_a C) (num_elec_b C) (samples_per_batch C) (n_batches C)
                  (Some (rng_h s)) w of
             Inl e \<Rightarrow> Inl e
           | Inr (bts, w1) \<Rightarrow>
               Inr ((object_at w bs_mat_tmp, object_at w probs_arr_tmp),
                    map (object_at w1) bts)))"

definition next_stage_arrays ::
  "('g, 'x) library_h \<Rightarrow> error + (config \<times> ('g, 'x) state_h)
     \<Rightarrow> error + (('g object option \<times> 'g object option) \<times> 'g object option list)" where
  "next_stage_arrays L r = (case r of Inl e \<Rightarrow> Inl e | Inr (C, s) \<Rightarrow> stage_arrays L C s)"

subsection \<open>What the library promises\<close>

text \<open>What a call returns and the objects it leaves, without the hidden part.\<close>

definition outcome :: "error + ('a \<times> ('g, 'x) world) \<Rightarrow> error + ('a \<times> 'g object list)" where
  "outcome r = map_sum id (map_prod id heap) r"

definition hidden_free :: "(('g, 'x) world \<Rightarrow> error + ('a \<times> ('g, 'x) world)) \<Rightarrow> bool" where
  "hidden_free f \<longleftrightarrow> (\<forall>w w'. heap w = heap w' \<longrightarrow> outcome (f w) = outcome (f w'))"

text \<open>
  Reproducibility of the single calls (the specification's sections 4.1 and 4.3): a
  generator made from a seed, and a call that is handed a generator or that draws nothing,
  returns what the objects and its arguments determine. Nothing is promised of a call
  with \<^verbatim>\<open>rand_seed=None\<close> or of a generator made without a seed.
\<close>

definition reproducible :: "('g, 'x) library_h \<Rightarrow> bool" where
  "reproducible L \<longleftrightarrow>
     (\<forall>seed. hidden_free (\<lambda>w. Inr (default_rng_h L (Some seed) w) :: error + _)) \<and>
     (\<forall>g n. hidden_free (\<lambda>w. Inr (random_h L g n w) :: error + _)) \<and>
     (\<forall>hcore eri k. hidden_free (rotate_integrals_h L hcore eri k)) \<and>
     (\<forall>n bits g. hidden_free (generate_counts_uniform_h L n bits (Some g))) \<and>
     (\<forall>c. hidden_free (counts_to_arrays_h L c)) \<and>
     (\<forall>m p occ a b g. hidden_free (recover_configurations_h L m p occ a b (Some g))) \<and>
     (\<forall>m p a b spb nb g. hidden_free (postselect_and_subsample_h L m p a b spb nb (Some g))) \<and>
     (\<forall>b h e os ss mc. hidden_free (solve_fermion_h L b h e os ss mc))"

text \<open>A call leaves every object that was there as it was, but for the listed ones.\<close>

definition unchanged_except ::
  "ref set \<Rightarrow> ('g, 'x) world \<Rightarrow> ('g, 'x) world \<Rightarrow> bool" where
  "unchanged_except rs w w' \<longleftrightarrow>
     (\<forall>r < length (heap w). r \<notin> rs \<longrightarrow> r < length (heap w') \<and> heap w' ! r = heap w ! r)"

text \<open>
  The specification's lifecycle rule (section 3): a bitstring matrix is never mutated, every
  transformation produces a new derived table. Of the objects that exist when
  \<^verbatim>\<open>recover_configurations\<close>, \<^verbatim>\<open>postselect_and_subsample\<close> or \<^verbatim>\<open>solve_fermion\<close> is
  called, the call changes at most the generator it is handed.
\<close>

definition derives_new_arrays :: "('g, 'x) library_h \<Rightarrow> bool" where
  "derives_new_arrays L \<longleftrightarrow>
     (\<forall>m p occ a b g w res w'.
        recover_configurations_h L m p occ a b g w = Inr (res, w')
          \<longrightarrow> unchanged_except (set_option g) w w') \<and>
     (\<forall>m p a b spb nb g w res w'.
        postselect_and_subsample_h L m p a b spb nb g w = Inr (res, w')
          \<longrightarrow> unchanged_except (set_option g) w w') \<and>
     (\<forall>b h e os ss mc w res w'.
        solve_fermion_h L b h e os ss mc w = Inr (res, w') \<longrightarrow> unchanged_except {} w w')"



section \<open>A small instance\<close>

text \<open>
  Two orbitals, one electron of each spin, three raw samples of which the third has the
  wrong Hamming weights. The generator is a counter and a draw returns it; postselection
  and subsampling are the specification's; the solver's energy and occupancy depend on the
  batch; recovery reverses the matrix.
\<close>

definition ex_r1 :: bitstring where "ex_r1 = [True, False, True, False]"
definition ex_r2 :: bitstring where "ex_r2 = [False, True, False, True]"
definition ex_r3 :: bitstring where "ex_r3 = [True, True, False, False]"

definition ex_matrix :: bitstring_matrix where "ex_matrix = [ex_r1, ex_r2, ex_r3]"
definition ex_probs :: probs where "ex_probs = [1 / 2, 1 / 4, 1 / 4]"

definition ex_config :: config where
  "ex_config =
     \<lparr> iterations = 2, n_batches = 2, samples_per_batch = 1, max_davidson_cycles = 200,
       num_orbitals = 2, num_elec_a = 1, num_elec_b = 1, open_shell = False, spin_sq = 0,
       hcore_rot = [], eri_rot = [], nuclear_repulsion_energy = 1,
       num_iters = 20, num_steps_grad = 1000, learning_rate = 1 / 1000 \<rparr>"

definition ex_solve ::
  "bitstring_matrix \<Rightarrow> one_body \<Rightarrow> two_body \<Rightarrow> bool \<Rightarrow> real \<Rightarrow> nat
     \<Rightarrow> error + (real \<times> real list \<times> occupancy \<times> real)" where
  "ex_solve b h e os ss mc =
     (if b = [ex_r1] then Inr (- 1, [1], [1, 0], 0) else Inr (- 2, [1], [0, 1], 0))"

definition ex_solve_fail ::
  "bitstring_matrix \<Rightarrow> one_body \<Rightarrow> two_body \<Rightarrow> bool \<Rightarrow> real \<Rightarrow> nat
     \<Rightarrow> error + (real \<times> real list \<times> occupancy \<times> real)" where
  "ex_solve_fail b h e os ss mc =
     (if b = [ex_r1] then Inr (- 1, [1], [1, 0], 0) else Inl EigensolveNonConvergence)"

definition ex_library :: "nat library" where
  "ex_library =
     \<lparr> recover_configurations = (\<lambda>bs ps occ a b g. Inr ((rev bs, rev ps), Suc g)),
       postselect_and_subsample = postselect_and_subsample_spec (\<lambda>g ps. (g, Suc g)),
       solve_fermion = ex_solve,
       optimize_orbitals = (\<lambda>b h e k os ss ni ng lr mc. Inr (- 3, k, [1 / 2, 1 / 2])),
       rng_random = (\<lambda>g n. (replicate n (3 / 4), g + n)) \<rparr>"

definition ex_library_fail :: "nat library" where
  "ex_library_fail = ex_library \<lparr> solve_fermion := ex_solve_fail \<rparr>"

text \<open>The states after the first and after the second round of the instance.\<close>

definition ex_round0 :: "nat sqd_state" where
  "ex_round0 =
     \<lparr> bitstring_matrix_full = ex_matrix, probs_arr_full = ex_probs, rng = 2,
       avg_occupancy = Some [1 / 2, 1 / 2], batches = Some [[ex_r1], [ex_r2]],
       e_hist = [[0, - 1], [0, 0]], s_hist = [[0, 0], [0, 0]],
       occupancy_hist = [[1 / 2, 1 / 2]] \<rparr>"

definition ex_final :: "nat sqd_state" where
  "ex_final =
     \<lparr> bitstring_matrix_full = ex_matrix, probs_arr_full = ex_probs, rng = 5,
       avg_occupancy = Some [1 / 2, 1 / 2], batches = Some [[ex_r1], [ex_r2]],
       e_hist = [[0, - 1], [0, - 1]], s_hist = [[0, 0], [0, 0]],
       occupancy_hist = [[1 / 2, 1 / 2], [1 / 2, 1 / 2]] \<rparr>"

subsection \<open>An instance over the heap\<close>

text \<open>
  A library for the instance. A generator is a counter; a call that is handed one reads and
  advances it, a call that is handed none reads and advances the hidden part. Every array a
  call returns is a new object at the end of the heap.
\<close>

definition ex_new :: "'g object list \<Rightarrow> ('g, 'x) world \<Rightarrow> ref list \<times> ('g, 'x) world" where
  "ex_new vs w =
     ([length (heap w)..<length (heap w) + length vs], w\<lparr> heap := heap w @ vs \<rparr>)"

definition ex_source :: "ref option \<Rightarrow> (nat, nat) world \<Rightarrow> nat" where
  "ex_source g w =
     (case g of
        None \<Rightarrow> hidden w
      | Some r \<Rightarrow> (case object_at w r of Some (Generator n) \<Rightarrow> n | _ \<Rightarrow> 0))"

definition ex_advance :: "ref option \<Rightarrow> nat \<Rightarrow> (nat, nat) world \<Rightarrow> (nat, nat) world" where
  "ex_advance g k w =
     (case g of
        None \<Rightarrow> w\<lparr> hidden := hidden w + k \<rparr>
      | Some r \<Rightarrow> w\<lparr> heap := (heap w)[r := Generator (ex_source g w + k)] \<rparr>)"

definition ex_default_rng :: "nat option \<Rightarrow> (nat, nat) world \<Rightarrow> ref \<times> (nat, nat) world" where
  "ex_default_rng seed w =
     (length (heap w),
      w\<lparr> heap := heap w @ [Generator (case seed of None \<Rightarrow> hidden w | Some n \<Rightarrow> n)] \<rparr>)"

definition ex_random :: "ref \<Rightarrow> nat \<Rightarrow> (nat, nat) world \<Rightarrow> real list \<times> (nat, nat) world" where
  "ex_random g n w =
     (map (\<lambda>k. 1 / real (ex_source (Some g) w + k + 1)) [0..<n], ex_advance (Some g) n w)"

definition ex_rotate_integrals ::
  "one_body \<Rightarrow> two_body \<Rightarrow> real list \<Rightarrow> (nat, nat) world
     \<Rightarrow> error + ((one_body \<times> two_body) \<times> (nat, nat) world)" where
  "ex_rotate_integrals hcore eri k w = Inr ((map (map (\<lambda>x. x + sum_list k)) hcore, eri), w)"

definition ex_generate_counts_uniform ::
  "nat \<Rightarrow> nat \<Rightarrow> ref option \<Rightarrow> (nat, nat) world \<Rightarrow> error + (counts \<times> (nat, nat) world)" where
  "ex_generate_counts_uniform n bits g w =
     Inr (rotate (ex_source g w) [(ex_r1, 2), (ex_r2, 1), (ex_r3, 1)], ex_advance g 1 w)"

definition ex_counts_to_arrays ::
  "counts \<Rightarrow> (nat, nat) world \<Rightarrow> error + ((ref \<times> ref) \<times> (nat, nat) world)" where
  "ex_counts_to_arrays c w =
     (case ex_new [Bits (map fst c),
                   Reals (map (\<lambda>x. real (snd x) / real (sum_list (map snd c))) c)] w of
        (rs, w') \<Rightarrow> Inr ((rs ! 0, rs ! 1), w'))"

definition ex_recover_configurations ::
  "ref \<Rightarrow> ref \<Rightarrow> occupancy \<Rightarrow> nat \<Rightarrow> nat \<Rightarrow> ref option \<Rightarrow> (nat, nat) world
     \<Rightarrow> error + ((ref \<times> ref) \<times> (nat, nat) world)" where
  "ex_recover_configurations m p occ a b g w =
     (case (object_at w m, object_at w p) of
        (Some (Bits rows), Some (Reals ps)) \<Rightarrow>
          (case ex_new [Bits (rotate (ex_source g w) rows), Reals (rotate (ex_source g w) ps)]
                  (ex_advance g 1 w) of
             (rs, w') \<Rightarrow> Inr ((rs ! 0, rs ! 1), w'))
      | _ \<Rightarrow> Inl TypeError)"

definition ex_postselect_and_subsample ::
  "ref \<Rightarrow> ref \<Rightarrow> nat \<Rightarrow> nat \<Rightarrow> nat \<Rightarrow> nat \<Rightarrow> ref option \<Rightarrow> (nat, nat) world
     \<Rightarrow> error + (ref list \<times> (nat, nat) world)" where
  "ex_postselect_and_subsample m p hamming_right hamming_left spb nb g w =
     (case object_at w m of
        Some (Bits rows) \<Rightarrow>
          (let kept = filter (hamming_ok hamming_right hamming_left) rows
           in if kept = [] then Inl EmptySubspaceError
              else Inr (ex_new
                          (map (\<lambda>k. Bits (replicate spb (kept ! ((ex_source g w + k) mod length kept))))
                             [0..<nb])
                          (ex_advance g nb w)))
      | _ \<Rightarrow> Inl TypeError)"

definition ex_solve_fermion ::
  "ref \<Rightarrow> one_body \<Rightarrow> two_body \<Rightarrow> bool \<Rightarrow> real \<Rightarrow> nat \<Rightarrow> (nat, nat) world
     \<Rightarrow> error + ((real \<times> real list \<times> occupancy \<times> real) \<times> (nat, nat) world)" where
  "ex_solve_fermion b h e os ss mc w =
     (case object_at w b of
        Some (Bits rows) \<Rightarrow>
          (case ex_solve rows h e os ss mc of Inl err \<Rightarrow> Inl err | Inr r \<Rightarrow> Inr (r, w))
      | _ \<Rightarrow> Inl TypeError)"

definition ex_library_h :: "(nat, nat) library_h" where
  "ex_library_h =
     \<lparr> default_rng_h = ex_default_rng, random_h = ex_random,
       rotate_integrals_h = ex_rotate_integrals,
       generate_counts_uniform_h = ex_generate_counts_uniform,
       counts_to_arrays_h = ex_counts_to_arrays,
       recover_configurations_h = ex_recover_configurations,
       postselect_and_subsample_h = ex_postselect_and_subsample,
       solve_fermion_h = ex_solve_fermion \<rparr>"

text \<open>
  A recovery that breaks the lifecycle rule: it rotates the rows of the matrix it is handed
  in place and returns the arrays it was handed.
\<close>

definition ex_recover_in_place ::
  "ref \<Rightarrow> ref \<Rightarrow> occupancy \<Rightarrow> nat \<Rightarrow> nat \<Rightarrow> ref option \<Rightarrow> (nat, nat) world
     \<Rightarrow> error + ((ref \<times> ref) \<times> (nat, nat) world)" where
  "ex_recover_in_place m p occ a b g w =
     (case object_at w m of
        Some (Bits rows) \<Rightarrow> Inr ((m, p), w\<lparr> heap := (heap w)[m := Bits (rotate 1 rows)] \<rparr>)
      | _ \<Rightarrow> Inl TypeError)"

definition ex_library_in_place :: "(nat, nat) library_h" where
  "ex_library_in_place = ex_library_h \<lparr> recover_configurations_h := ex_recover_in_place \<rparr>"

text \<open>Two processes with the same objects (none yet) and different hidden parts.\<close>

definition ex_world :: "nat \<Rightarrow> (nat, nat) world" where
  "ex_world x = \<lparr> heap = [], hidden = x \<rparr>"

text \<open>
  The names as the loop's cell finds them in the instance, after the rotation and sampling
  cells with seed 24; and a state as a first round could have left it.
\<close>

definition ex_entry :: "(nat, nat) state_h" where
  "ex_entry =
     init_state_h ex_config 1 2 0
       \<lparr> heap = [Generator 29, Bits [ex_r2, ex_r3, ex_r1], Reals [1 / 4, 1 / 4, 1 / 2]],
         hidden = 0 \<rparr>"


section \<open>Facts about the specification's postselection and subsampling\<close>

lemma draw_rows_fst:
  "rows \<noteq> [] \<Longrightarrow>
     length (fst (draw_rows choice rows ps k g)) = k \<and>
     set (fst (draw_rows choice rows ps k g)) \<subseteq> set rows"
proof (induction k arbitrary: g)
  case 0
  then show ?case by simp
next
  case (Suc k)
  obtain i g1 where c: "choice g ps = (i, g1)" by (cases "choice g ps")
  obtain rest g2 where r: "draw_rows choice rows ps k g1 = (rest, g2)"
    by (cases "draw_rows choice rows ps k g1")
  from Suc.IH [OF Suc.prems, of g1] r
  have rest: "length rest = k" "set rest \<subseteq> set rows" by simp_all
  from Suc.prems have "rows ! (i mod length rows) \<in> set rows" by simp
  with rest c r show ?case by simp
qed

lemma draw_batches_fst:
  "rows \<noteq> [] \<Longrightarrow>
     length (fst (draw_batches choice rows ps spb k g)) = k \<and>
     (\<forall>b \<in> set (fst (draw_batches choice rows ps spb k g)).
        length b = spb \<and> set b \<subseteq> set rows)"
proof (induction k arbitrary: g)
  case 0
  then show ?case by simp
next
  case (Suc k)
  obtain b g1 where d: "draw_rows choice rows ps spb g = (b, g1)"
    by (cases "draw_rows choice rows ps spb g")
  obtain rest g2 where r: "draw_batches choice rows ps spb k g1 = (rest, g2)"
    by (cases "draw_batches choice rows ps spb k g1")
  from draw_rows_fst [OF Suc.prems, of choice ps spb g] d
  have b: "length b = spb" "set b \<subseteq> set rows" by simp_all
  from Suc.IH [OF Suc.prems, of g1] r
  have rest: "length rest = k" "\<forall>b \<in> set rest. length b = spb \<and> set b \<subseteq> set rows"
    by simp_all
  from b rest d r show ?case by simp
qed

lemma postselect_Inr:
  assumes "postselect_by_hamming_right_and_left bs ps hr hl = Inr (m, p)"
  shows "m = filter (hamming_ok hr hl) bs" and "m \<noteq> []"
  using assms
  by (auto simp: postselect_by_hamming_right_and_left_def Let_def split: if_splits)

lemma postselect_and_subsample_spec_Inr:
  assumes "postselect_and_subsample_spec choice bs ps hr hl spb nb g = Inr (bts, g')"
  shows "filter (hamming_ok hr hl) bs \<noteq> []"
    and "length bts = nb"
    and "\<forall>b \<in> set bts. length b = spb \<and> set b \<subseteq> set (filter (hamming_ok hr hl) bs)"
proof -
  from assms obtain m p where
    ps: "postselect_by_hamming_right_and_left bs ps hr hl = Inr (m, p)" and
    sub: "subsample choice m p spb nb g = Inr (bts, g')"
    by (auto simp: postselect_and_subsample_spec_def split: sum.splits)
  from postselect_Inr [OF ps] have m: "m = filter (hamming_ok hr hl) bs" "m \<noteq> []" .
  from sub m have bts: "bts = fst (draw_batches choice m p spb nb g)"
    by (simp add: subsample_def)
  from m show "filter (hamming_ok hr hl) bs \<noteq> []" by simp
  from draw_batches_fst [OF m(2), of choice p spb nb g] bts m(1)
  show "length bts = nb"
    and "\<forall>b \<in> set bts. length b = spb \<and> set b \<subseteq> set (filter (hamming_ok hr hl) bs)"
    by simp_all
qed

lemma postselect_and_subsample_spec_empty:
  assumes "filter (hamming_ok hr hl) bs = []"
  shows "postselect_and_subsample_spec choice bs ps hr hl spb nb g = Inl EmptySubspaceError"
  using assms
  by (simp add: postselect_and_subsample_spec_def postselect_by_hamming_right_and_left_def
        Let_def)

section \<open>Facts about a round\<close>

lemma set_row_Inr:
  assumes "set_row hist i v = Inr hist'"
  shows "i < length hist" and "map length hist' = map length hist"
    and "length v = length (hist ! i) \<Longrightarrow> hist' = hist[i := v]"
  using assms
  by (auto simp: set_row_def map_update list_update_same_conv split: if_splits)

lemma set_row_fits:
  assumes "i < length hist" and "length v = length (hist ! i)"
  shows "set_row hist i v = Inr (hist[i := v])"
  using assms by (simp add: set_row_def)

lemma sqd_round_Inr:
  assumes "sqd_round L C i s = Inr s'"
  obtains m p g bts g' int_e int_s int_occs cs occ e_hist' s_hist' where
    "recovery_stage L C s = Inr ((m, p), g)"
    "postselect_and_subsample L m p (num_elec_a C) (num_elec_b C)
       (samples_per_batch C) (n_batches C) g = Inr (bts, g')"
    "solve_batches L C bts [0..<n_batches C]
       (replicate (n_batches C) 0, replicate (n_batches C) 0, [], []) =
         Inr (int_e, int_s, int_occs, cs)"
    "mean_axis0 int_occs = Inr occ"
    "set_row (e_hist s) i int_e = Inr e_hist'"
    "set_row (s_hist s) i int_s = Inr s_hist'"
    "s' = s\<lparr> rng := g', avg_occupancy := Some occ, batches := Some bts,
            e_hist := e_hist', s_hist := s_hist',
            occupancy_hist := occupancy_hist s @ [occ] \<rparr>"
  using assms
  by (auto simp: sqd_round_def round_tail_def split: sum.splits prod.splits)

section \<open>Round 0 hands the raw samples to postselection\<close>

text \<open>
  C3. On round 0 no occupancy estimate exists: the recovery branch returns the full
  bitstring matrix, its probability vector and the generator unchanged, whatever
  \<open>recover_configurations\<close> is, and the first round of a run is postselection, solving
  and averaging applied to exactly these arrays.
\<close>

theorem round0_passes_input_through:
  "avg_occupancy (init_state C bs ps g) = None \<and>
   recovery_stage L C (init_state C bs ps g) = Inr ((bs, ps), g) \<and>
   sqd_round L C 0 (init_state C bs ps g) = round_tail L C 0 (init_state C bs ps g) bs ps g \<and>
   run_sqd L (C\<lparr>iterations := Suc k\<rparr>) bs ps g =
     (case round_tail L (C\<lparr>iterations := Suc k\<rparr>) 0
             (init_state (C\<lparr>iterations := Suc k\<rparr>) bs ps g) bs ps g of
        Inl e \<Rightarrow> Inl e
      | Inr s' \<Rightarrow> sqd_loop L (C\<lparr>iterations := Suc k\<rparr>) [Suc 0..<Suc k] s')"
proof -
  let ?C = "C\<lparr>iterations := Suc k\<rparr>"
  have none: "avg_occupancy (init_state C' bs ps g) = None" for C' :: config
    by (simp add: init_state_def)
  have stage: "recovery_stage L C' (init_state C' bs ps g) = Inr ((bs, ps), g)" for C' :: config
    by (simp add: recovery_stage_def init_state_def)
  have round: "sqd_round L C' 0 (init_state C' bs ps g) =
      round_tail L C' 0 (init_state C' bs ps g) bs ps g" for C' :: config
    by (simp add: sqd_round_def stage)
  have rounds: "[0..<iterations ?C] = 0 # [Suc 0..<Suc k]"
    by (simp add: upt_conv_Cons)
  have "run_sqd L ?C bs ps g =
      (case sqd_round L ?C 0 (init_state ?C bs ps g) of
         Inl e \<Rightarrow> Inl e
       | Inr s' \<Rightarrow> sqd_loop L ?C [Suc 0..<Suc k] s')"
    unfolding run_sqd_def rounds by (simp del: upt_Suc)
  with none stage round show ?thesis
    by (simp del: upt_Suc)
qed

section \<open>Every postselected row has the target populations\<close>

text \<open>
  C2. Every row of every batch that postselection and subsampling return has a right
  (spin-up) half with exactly \<open>hamming_right\<close> set bits and a left (spin-down) half
  with exactly \<open>hamming_left\<close> set bits; in a round of the loop, run with this
  postselection, these are \<open>num_elec_a\<close> and \<open>num_elec_b\<close>, for the batches of every
  round that completes.
\<close>

theorem postselected_rows_have_target_weights:
  "(postselect_and_subsample_spec choice bs ps hr hl spb nb g = Inr (bts, g') \<longrightarrow>
      (\<forall>b \<in> set bts. \<forall>row \<in> set b.
         popcount (right_half row) = hr \<and> popcount (left_half row) = hl)) \<and>
   (postselect_and_subsample L = postselect_and_subsample_spec choice \<and>
    sqd_round L C i s = Inr s' \<longrightarrow>
      (\<exists>bts'. batches s' = Some bts' \<and>
         (\<forall>b \<in> set bts'. \<forall>row \<in> set b.
            popcount (right_half row) = num_elec_a C \<and>
            popcount (left_half row) = num_elec_b C)))"
proof (intro conjI impI)
  assume sel: "postselect_and_subsample_spec choice bs ps hr hl spb nb g = Inr (bts, g')"
  from postselect_and_subsample_spec_Inr(3) [OF sel]
  show "\<forall>b \<in> set bts. \<forall>row \<in> set b.
          popcount (right_half row) = hr \<and> popcount (left_half row) = hl"
    by (auto simp: hamming_ok_def)
next
  assume a: "postselect_and_subsample L = postselect_and_subsample_spec choice \<and>
    sqd_round L C i s = Inr s'"
  then have lib: "postselect_and_subsample L = postselect_and_subsample_spec choice"
    and "sqd_round L C i s = Inr s'"
    by simp_all
  then obtain m p g0 bts0 where
    sel: "postselect_and_subsample L m p (num_elec_a C) (num_elec_b C)
       (samples_per_batch C) (n_batches C) g0 = Inr (bts0, rng s')" and
    s': "batches s' = Some bts0"
    by (auto elim!: sqd_round_Inr)
  from postselect_and_subsample_spec_Inr(3) [OF sel [unfolded lib]]
  have "\<forall>b \<in> set bts0. \<forall>row \<in> set b.
          popcount (right_half row) = num_elec_a C \<and> popcount (left_half row) = num_elec_b C"
    by (auto simp: hamming_ok_def)
  with s' show "\<exists>bts'. batches s' = Some bts' \<and>
         (\<forall>b \<in> set bts'. \<forall>row \<in> set b.
            popcount (right_half row) = num_elec_a C \<and>
            popcount (left_half row) = num_elec_b C)"
    by simp
qed

theorem postselected_rows_have_target_weights_witness:
  "postselect_and_subsample_spec (\<lambda>g ps. (g, Suc g)) ex_matrix ex_probs 1 1 1 2 (0::nat) =
     Inr ([[ex_r1], [ex_r2]], 2) \<and>
   popcount (right_half ex_r1) = 1 \<and> popcount (left_half ex_r1) = 1 \<and>
   popcount (right_half ex_r2) = 1 \<and> popcount (left_half ex_r2) = 1 \<and>
   popcount (left_half ex_r3) = 2 \<and>
   postselect_and_subsample ex_library =
     postselect_and_subsample_spec (\<lambda>g ps. (g, Suc g)) \<and>
   sqd_round ex_library ex_config 0 (init_state ex_config ex_matrix ex_probs 0) =
     Inr ex_round0 \<and>
   batches ex_round0 = Some [[ex_r1], [ex_r2]] \<and>
   popcount (right_half ex_r2) = num_elec_a ex_config \<and>
   popcount (left_half ex_r2) = num_elec_b ex_config"
proof -
  have sel: "postselect_and_subsample_spec (\<lambda>g ps. (g, Suc g)) ex_matrix ex_probs 1 1 1 2 (0::nat) =
     Inr ([[ex_r1], [ex_r2]], 2)"
    by code_simp
  have r3: "popcount (left_half ex_r3) = 2"
    by code_simp
  have a: "popcount (right_half ex_r1) = 1 \<and> popcount (left_half ex_r1) = 1"
    using postselected_rows_have_target_weights
            [THEN conjunct1, rule_format, OF sel, of "[ex_r1]" ex_r1]
    by simp
  have b: "popcount (right_half ex_r2) = 1 \<and> popcount (left_half ex_r2) = 1"
    using postselected_rows_have_target_weights
            [THEN conjunct1, rule_format, OF sel, of "[ex_r2]" ex_r2]
    by simp
  have lib: "postselect_and_subsample ex_library =
      postselect_and_subsample_spec (\<lambda>g ps. (g, Suc g))"
    by (simp add: ex_library_def)
  have rnd: "sqd_round ex_library ex_config 0 (init_state ex_config ex_matrix ex_probs 0) =
     Inr ex_round0"
    by code_simp
  have bts: "batches ex_round0 = Some [[ex_r1], [ex_r2]]"
    by code_simp
  from postselected_rows_have_target_weights
         [THEN conjunct2, rule_format, OF conjI [OF lib rnd]] bts
  have c: "popcount (right_half ex_r2) = num_elec_a ex_config \<and>
      popcount (left_half ex_r2) = num_elec_b ex_config"
    by auto
  from sel a b r3 lib rnd bts c show ?thesis by simp
qed

section \<open>An empty postselection ends the run\<close>

lemma sqd_loop_append:
  "sqd_loop L C (xs @ ys) s =
     (case sqd_loop L C xs s of Inl e \<Rightarrow> Inl e | Inr s' \<Rightarrow> sqd_loop L C ys s')"
  by (induction xs arbitrary: s) (auto split: sum.splits)

lemma sqd_round_empty_postselection:
  assumes "postselect_and_subsample L = postselect_and_subsample_spec choice"
    and "recovery_stage L C s = Inr ((m, p), g)"
    and "filter (hamming_ok (num_elec_a C) (num_elec_b C)) m = []"
  shows "sqd_round L C i s = Inl EmptySubspaceError"
  using assms
  by (simp add: sqd_round_def round_tail_def postselect_and_subsample_spec_empty)

text \<open>
  C8. When no row has the target Hamming weights, postselection and subsampling return the
  unrecoverable-sample-set error; nothing in the loop catches it, so a run with this
  postselection that reaches such a round, after any rounds before it, ends with that error
  whatever rounds were still to come. A round that completes with \<open>samples_per_batch\<close>
  positive has no empty batch.
\<close>

theorem empty_postselection_is_fatal:
  "(filter (hamming_ok hr hl) bs = [] \<longrightarrow>
      postselect_and_subsample_spec choice bs ps hr hl spb nb g = Inl EmptySubspaceError) \<and>
   (postselect_and_subsample L = postselect_and_subsample_spec choice \<and>
    sqd_loop L C pre s0 = Inr s \<and> recovery_stage L C s = Inr ((m, p), g1) \<and>
    filter (hamming_ok (num_elec_a C) (num_elec_b C)) m = [] \<longrightarrow>
      sqd_loop L C (pre @ i # post) s0 = Inl EmptySubspaceError) \<and>
   (postselect_and_subsample L = postselect_and_subsample_spec choice \<and>
    sqd_round L C i s = Inr s' \<and> 0 < samples_per_batch C \<longrightarrow>
      (\<exists>bts. batches s' = Some bts \<and> (\<forall>b \<in> set bts. b \<noteq> [])))"
proof (intro conjI impI)
  assume "filter (hamming_ok hr hl) bs = []"
  then show "postselect_and_subsample_spec choice bs ps hr hl spb nb g = Inl EmptySubspaceError"
    by (rule postselect_and_subsample_spec_empty)
next
  assume a: "postselect_and_subsample L = postselect_and_subsample_spec choice \<and>
    sqd_loop L C pre s0 = Inr s \<and> recovery_stage L C s = Inr ((m, p), g1) \<and>
    filter (hamming_ok (num_elec_a C) (num_elec_b C)) m = []"
  then have lib: "postselect_and_subsample L = postselect_and_subsample_spec choice"
    and l: "sqd_loop L C pre s0 = Inr s"
    and r: "recovery_stage L C s = Inr ((m, p), g1)"
    and f: "filter (hamming_ok (num_elec_a C) (num_elec_b C)) m = []"
    by blast+
  from lib r f have "sqd_round L C i s = Inl EmptySubspaceError"
    by (rule sqd_round_empty_postselection)
  with l show "sqd_loop L C (pre @ i # post) s0 = Inl EmptySubspaceError"
    by (simp add: sqd_loop_append)
next
  assume a: "postselect_and_subsample L = postselect_and_subsample_spec choice \<and>
    sqd_round L C i s = Inr s' \<and> 0 < samples_per_batch C"
  then have lib: "postselect_and_subsample L = postselect_and_subsample_spec choice"
    and "sqd_round L C i s = Inr s'" and spb: "0 < samples_per_batch C"
    by simp_all
  then obtain m p g0 bts0 where
    sel: "postselect_and_subsample L m p (num_elec_a C) (num_elec_b C)
       (samples_per_batch C) (n_batches C) g0 = Inr (bts0, rng s')" and
    s': "batches s' = Some bts0"
    by (auto elim!: sqd_round_Inr)
  from postselect_and_subsample_spec_Inr(3) [OF sel [unfolded lib]] spb
  have "\<forall>b \<in> set bts0. b \<noteq> []" by auto
  with s' show "\<exists>bts. batches s' = Some bts \<and> (\<forall>b \<in> set bts. b \<noteq> [])"
    by simp
qed

theorem empty_postselection_is_fatal_witness:
  "postselect_and_subsample ex_library =
     postselect_and_subsample_spec (\<lambda>g ps. (g, Suc g)) \<and>
   filter (hamming_ok 1 1) [ex_r3] = [] \<and>
   postselect_and_subsample_spec (\<lambda>g ps. (g, Suc g)) [ex_r3] [1] 1 1 1 2 (0::nat) =
     Inl EmptySubspaceError \<and>
   recovery_stage ex_library ex_config (init_state ex_config [ex_r3] [1] 0) =
     Inr (([ex_r3], [1]), 0) \<and>
   run_sqd ex_library ex_config [ex_r3] [1] 0 = Inl EmptySubspaceError \<and>
   sqd_round ex_library ex_config 0 (init_state ex_config ex_matrix ex_probs 0) =
     Inr ex_round0 \<and>
   0 < samples_per_batch ex_config \<and>
   batches ex_round0 = Some [[ex_r1], [ex_r2]] \<and> [ex_r1] \<noteq> [] \<and> [ex_r2] \<noteq> []"
proof -
  have lib: "postselect_and_subsample ex_library =
      postselect_and_subsample_spec (\<lambda>g ps. (g, Suc g))"
    by (simp add: ex_library_def)
  have f: "filter (hamming_ok (num_elec_a ex_config) (num_elec_b ex_config)) [ex_r3] = []"
    by code_simp
  have f': "filter (hamming_ok 1 1) [ex_r3] = []"
    by code_simp
  from empty_postselection_is_fatal [THEN conjunct1, rule_format, OF f']
  have e: "postselect_and_subsample_spec (\<lambda>g ps. (g, Suc g)) [ex_r3] [1] 1 1 1 2 (0::nat) =
     Inl EmptySubspaceError" .
  have r: "recovery_stage ex_library ex_config (init_state ex_config [ex_r3] [1] 0) =
     Inr (([ex_r3], [1]), 0)"
    by code_simp
  have l: "sqd_loop ex_library ex_config [] (init_state ex_config [ex_r3] [1] 0) =
     Inr (init_state ex_config [ex_r3] [1] 0)"
    by simp
  have rounds: "[0..<iterations ex_config] = [] @ 0 # [1]"
    by code_simp
  from empty_postselection_is_fatal
         [THEN conjunct2, THEN conjunct1, rule_format,
          OF conjI [OF lib conjI [OF l conjI [OF r f]]], of 0 "[1]"]
  have run: "run_sqd ex_library ex_config [ex_r3] [1] 0 = Inl EmptySubspaceError"
    unfolding run_sqd_def rounds .
  have rnd: "sqd_round ex_library ex_config 0 (init_state ex_config ex_matrix ex_probs 0) =
     Inr ex_round0"
    by code_simp
  have spb: "0 < samples_per_batch ex_config"
    by code_simp
  have bts: "batches ex_round0 = Some [[ex_r1], [ex_r2]]"
    by code_simp
  from empty_postselection_is_fatal
         [THEN conjunct2, THEN conjunct2, rule_format, OF conjI [OF lib conjI [OF rnd spb]]] bts
  have ne: "[ex_r1] \<noteq> [] \<and> [ex_r2] \<noteq> []"
    by auto
  from lib f' e r run rnd spb bts ne show ?thesis by simp
qed

section \<open>A failed eigensolve ends the round\<close>

lemma solve_batches_step:
  "solve_batches L C bts (j # js) (int_e, int_s, int_occs, cs) =
     (if length bts \<le> j then Inl IndexError
      else case solve_one L C (bts ! j) of
             Inl e \<Rightarrow> Inl e
           | Inr (energy_sci, coeffs_sci, avg_occs, spin) \<Rightarrow>
               if length int_e \<le> j \<or> length int_s \<le> j then Inl IndexError
               else solve_batches L C bts js
                      (int_e[j := energy_sci + nuclear_repulsion_energy C], int_s[j := spin],
                       int_occs @ [avg_occs], cs @ [coeffs_sci]))"
  by (simp add: solve_one_def)

declare solve_batches.simps(2) [simp del]

lemma solve_batches_Inr_aux:
  "solve_batches L C bts js (int_e, int_s, int_occs, cs) = Inr (int_e', int_s', int_occs', cs')
   \<Longrightarrow>
     (\<forall>j \<in> set js. j < length bts \<and> converged (solve_one L C (bts ! j))) \<and>
     (\<forall>j \<in> set js. j < length int_e \<and> j < length int_s) \<and>
     int_occs' = int_occs @ map (\<lambda>j. occupancy_of (solve_one L C (bts ! j))) js \<and>
     length int_e' = length int_e \<and> length int_s' = length int_s \<and>
     (\<forall>j < length int_e. int_e' ! j =
        (if j \<in> set js
         then energy_of (solve_one L C (bts ! j)) + nuclear_repulsion_energy C
         else int_e ! j))"
proof (induction js arbitrary: int_e int_s int_occs cs)
  case Nil
  then show ?case by simp
next
  case (Cons j js)
  from Cons.prems have j: "j < length bts"
    by (simp add: solve_batches_step split: if_splits)
  from Cons.prems j obtain en co oc sp where
    one: "solve_one L C (bts ! j) = Inr (en, co, oc, sp)" and
    inr: "j < length int_e" "j < length int_s" and
    rest: "solve_batches L C bts js
             (int_e[j := en + nuclear_repulsion_energy C], int_s[j := sp],
              int_occs @ [oc], cs @ [co]) = Inr (int_e', int_s', int_occs', cs')"
    by (cases "solve_one L C (bts ! j)") (auto simp: solve_batches_step split: if_splits)
  note ih = Cons.IH [OF rest]
  have idx: "\<forall>k \<in> set (j # js). k < length int_e \<and> k < length int_s"
    using ih inr by simp
  have lens: "length int_s' = length int_s"
    using ih by simp
  have conv: "\<forall>k \<in> set (j # js). k < length bts \<and> converged (solve_one L C (bts ! k))"
    using ih j one by (simp add: converged_def)
  have occs: "int_occs' =
      int_occs @ map (\<lambda>j. occupancy_of (solve_one L C (bts ! j))) (j # js)"
    using ih one by (simp add: occupancy_of_def)
  have len: "length int_e' = length int_e"
    using ih by simp
  have en: "\<forall>k < length int_e. int_e' ! k =
        (if k \<in> set (j # js)
         then energy_of (solve_one L C (bts ! k)) + nuclear_repulsion_energy C
         else int_e ! k)"
  proof (intro allI impI)
    fix k assume k: "k < length int_e"
    with ih have "int_e' ! k =
        (if k \<in> set js
         then energy_of (solve_one L C (bts ! k)) + nuclear_repulsion_energy C
         else int_e[j := en + nuclear_repulsion_energy C] ! k)"
      by simp
    with k one show "int_e' ! k =
        (if k \<in> set (j # js)
         then energy_of (solve_one L C (bts ! k)) + nuclear_repulsion_energy C
         else int_e ! k)"
      by (cases "k = j") (simp_all add: energy_of_def)
  qed
  from conv idx occs len lens en show ?case by blast
qed

lemma solve_batches_first_failure:
  assumes "j < length bts" and "solve_one L C (bts ! j) = Inl e"
  shows "\<forall>k \<in> set pre. k < length bts \<and> converged (solve_one L C (bts ! k)) \<and>
                        k < length int_e \<and> k < length int_s \<Longrightarrow>
    solve_batches L C bts (pre @ j # post) (int_e, int_s, int_occs, cs) = Inl e"
proof (induction pre arbitrary: int_e int_s int_occs cs)
  case Nil
  from assms show ?case
    by (simp add: solve_batches_step)
next
  case (Cons k pre)
  from Cons.prems have k: "k < length bts" "converged (solve_one L C (bts ! k))"
      "k < length int_e" "k < length int_s"
    and pre: "\<forall>k \<in> set pre. k < length bts \<and> converged (solve_one L C (bts ! k)) \<and>
                k < length int_e \<and> k < length int_s"
    by simp_all
  from k(2) obtain en co oc sp where one: "solve_one L C (bts ! k) = Inr (en, co, oc, sp)"
    by (cases "solve_one L C (bts ! k)") (auto simp: converged_def)
  have "solve_batches L C bts (pre @ j # post)
          (int_e[k := en + nuclear_repulsion_energy C], int_s[k := sp],
           int_occs @ [oc], cs @ [co]) = Inl e"
    by (rule Cons.IH) (use pre in simp)
  with k one show ?case
    by (simp add: solve_batches_step)
qed

lemma mean_axis0_Inr:
  assumes "mean_axis0 vs = Inr m"
  shows "vs \<noteq> []" and "length m = length (hd vs)"
    and "\<forall>k < length m. m ! k = sum_list (map (\<lambda>v. v ! k) vs) / real (length vs)"
  using assms
  by (auto simp: mean_axis0_def split: list.splits if_splits)

lemma upt_split_at:
  assumes "j < n"
  shows "[0..<n] = [0..<j] @ j # [Suc j..<n]"
proof -
  from assms have "[0..<n] = [0..<j + (n - j)]" by simp
  also have "\<dots> = [0..<j] @ [j..<j + (n - j)]"
    by (rule upt_add_eq_append) simp
  also from assms have "[j..<j + (n - j)] = j # [Suc j..<n]"
    by (simp add: upt_conv_Cons)
  finally show ?thesis .
qed

lemma solve_batches_all_converged:
  "\<forall>j \<in> set js. j < length bts \<and> converged (solve_one L C (bts ! j)) \<and>
                   j < length int_e \<and> j < length int_s \<Longrightarrow>
     \<exists>acc'. solve_batches L C bts js (int_e, int_s, int_occs, cs) = Inr acc'"
proof (induction js arbitrary: int_e int_s int_occs cs)
  case Nil
  show ?case by (rule exI [of _ "(int_e, int_s, int_occs, cs)"]) simp
next
  case (Cons j js)
  from Cons.prems have j: "j < length bts" "converged (solve_one L C (bts ! j))"
      "j < length int_e" "j < length int_s"
    and js: "\<forall>k \<in> set js. k < length bts \<and> converged (solve_one L C (bts ! k)) \<and>
               k < length int_e \<and> k < length int_s"
    by simp_all
  from j(2) obtain en co oc sp where one: "solve_one L C (bts ! j) = Inr (en, co, oc, sp)"
    by (cases "solve_one L C (bts ! j)") (auto simp: converged_def)
  have "\<exists>acc'. solve_batches L C bts js
          (int_e[j := en + nuclear_repulsion_energy C], int_s[j := sp],
           int_occs @ [oc], cs @ [co]) = Inr acc'"
    by (rule Cons.IH) (use js in simp)
  with j one show ?case
    by (simp add: solve_batches_step)
qed

lemma round_tail_unfold:
  assumes "postselect_and_subsample L m p (num_elec_a C) (num_elec_b C)
       (samples_per_batch C) (n_batches C) g = Inr (bts, g')"
  shows "round_tail L C i s m p g =
     (case solve_batches L C bts [0..<n_batches C]
             (replicate (n_batches C) 0, replicate (n_batches C) 0, [], []) of
        Inl e \<Rightarrow> Inl e
      | Inr (int_e, int_s, int_occs, cs) \<Rightarrow>
          (case mean_axis0 int_occs of
             Inl e \<Rightarrow> Inl e
           | Inr occ \<Rightarrow>
               (case set_row (e_hist s) i int_e of
                  Inl e \<Rightarrow> Inl e
                | Inr e_hist' \<Rightarrow>
                    (case set_row (s_hist s) i int_s of
                       Inl e \<Rightarrow> Inl e
                     | Inr s_hist' \<Rightarrow>
                         Inr (s\<lparr> rng := g', avg_occupancy := Some occ, batches := Some bts,
                                e_hist := e_hist', s_hist := s_hist',
                                occupancy_hist := occupancy_hist s @ [occ] \<rparr>)))))"
  using assms by (simp add: round_tail_def)

text \<open>
  C1, as the loop has it. The batches of a round are solved in order and nothing catches
  what \<open>solve_fermion\<close> raises. Let postselection and subsampling have returned at
  least \<open>n_batches\<close> batches. A round that completes has every one of its
  \<open>n_batches\<close> batches solved, and its occupancy estimate has an entry for each
  orbital of the first batch's occupancy and is, orbital by orbital, the arithmetic mean
  over all of them; when every batch is solved, the mean is defined and the histories have
  their row \<open>i\<close> of \<open>n_batches\<close> entries (as in every run), the round completes
  with that mean; and the first batch whose eigensolve fails ends the round,
  and the loop with it, with that batch's error: no batch is left out of the mean, and a
  round with a failed batch does not proceed.
\<close>

theorem round_needs_every_batch_solved:
  assumes rec: "recovery_stage L C s = Inr ((m, p), g)"
    and sel: "postselect_and_subsample L m p (num_elec_a C) (num_elec_b C)
       (samples_per_batch C) (n_batches C) g = Inr (bts, g')"
    and len: "n_batches C \<le> length bts"
  shows
   "(\<forall>s'. sqd_round L C i s = Inr s' \<longrightarrow>
       (\<forall>j < n_batches C. converged (solve_one L C (bts ! j))) \<and>
       (\<exists>occ. avg_occupancy s' = Some occ \<and>
          length occ = length (occupancy_of (solve_one L C (bts ! 0))) \<and>
          (\<forall>k < length occ. occ ! k =
             sum_list (map (\<lambda>j. occupancy_of (solve_one L C (bts ! j)) ! k) [0..<n_batches C])
               / real (n_batches C)))) \<and>
    (\<forall>occ. (\<forall>j < n_batches C. converged (solve_one L C (bts ! j))) \<and>
        mean_axis0 (map (\<lambda>j. occupancy_of (solve_one L C (bts ! j))) [0..<n_batches C]) = Inr occ \<and>
        i < length (e_hist s) \<and> length (e_hist s ! i) = n_batches C \<and>
        i < length (s_hist s) \<and> length (s_hist s ! i) = n_batches C
        \<longrightarrow> (\<exists>s'. sqd_round L C i s = Inr s' \<and> avg_occupancy s' = Some occ)) \<and>
    (\<forall>j e. j < n_batches C \<and> solve_one L C (bts ! j) = Inl e \<and>
        (\<forall>k < j. converged (solve_one L C (bts ! k)))
        \<longrightarrow> sqd_round L C i s = Inl e \<and> sqd_loop L C (i # post) s = Inl e)"
proof -
  let ?acc0 = "(replicate (n_batches C) (0::real), replicate (n_batches C) (0::real),
                [] :: occupancy list, [] :: real list list)"
  let ?occs = "map (\<lambda>j. occupancy_of (solve_one L C (bts ! j))) [0..<n_batches C]"
  have round: "sqd_round L C i s =
     (case solve_batches L C bts [0..<n_batches C] ?acc0 of
        Inl e \<Rightarrow> Inl e
      | Inr (int_e, int_s, int_occs, cs) \<Rightarrow>
          (case mean_axis0 int_occs of
             Inl e \<Rightarrow> Inl e
           | Inr occ \<Rightarrow>
               (case set_row (e_hist s) i int_e of
                  Inl e \<Rightarrow> Inl e
                | Inr e_hist' \<Rightarrow>
                    (case set_row (s_hist s) i int_s of
                       Inl e \<Rightarrow> Inl e
                     | Inr s_hist' \<Rightarrow>
                         Inr (s\<lparr> rng := g', avg_occupancy := Some occ, batches := Some bts,
                                e_hist := e_hist', s_hist := s_hist',
                                occupancy_hist := occupancy_hist s @ [occ] \<rparr>)))))"
    by (simp add: sqd_round_def rec round_tail_unfold [OF sel])
  have proceeds: "(\<forall>j < n_batches C. converged (solve_one L C (bts ! j))) \<and>
       (\<exists>occ. avg_occupancy s' = Some occ \<and>
          length occ = length (occupancy_of (solve_one L C (bts ! 0))) \<and>
          (\<forall>k < length occ. occ ! k =
             sum_list (map (\<lambda>j. occupancy_of (solve_one L C (bts ! j)) ! k) [0..<n_batches C])
               / real (n_batches C)))"
    if ok: "sqd_round L C i s = Inr s'" for s'
  proof -
    from ok round obtain int_e int_s int_occs cs occ where
      run: "solve_batches L C bts [0..<n_batches C] ?acc0 = Inr (int_e, int_s, int_occs, cs)"
      and mean: "mean_axis0 int_occs = Inr occ"
      and occ: "avg_occupancy s' = Some occ"
      by (auto split: sum.splits prod.splits)
    from solve_batches_Inr_aux [OF run]
    have conv: "\<forall>j < n_batches C. converged (solve_one L C (bts ! j))"
      and occs: "int_occs = ?occs"
      by simp_all
    from mean_axis0_Inr(3) [OF mean] occs
    have "\<forall>k < length occ. occ ! k =
             sum_list (map (\<lambda>j. occupancy_of (solve_one L C (bts ! j)) ! k) [0..<n_batches C])
               / real (n_batches C)"
      by (simp add: comp_def)
    moreover from mean_axis0_Inr(1) [OF mean] occs have "0 < n_batches C"
      by (cases "n_batches C") simp_all
    with mean_axis0_Inr(2) [OF mean] occs
    have "length occ = length (occupancy_of (solve_one L C (bts ! 0)))"
      by (simp add: hd_map upt_conv_Cons)
    ultimately show ?thesis using conv occ by blast
  qed
  have all_ok: "\<exists>s'. sqd_round L C i s = Inr s' \<and> avg_occupancy s' = Some occ"
    if conv: "\<forall>j < n_batches C. converged (solve_one L C (bts ! j))"
      and mean: "mean_axis0 ?occs = Inr occ"
      and eh: "i < length (e_hist s)" "length (e_hist s ! i) = n_batches C"
      and sh: "i < length (s_hist s)" "length (s_hist s ! i) = n_batches C" for occ
  proof -
    from conv len
    have "\<forall>j \<in> set [0..<n_batches C]. j < length bts \<and> converged (solve_one L C (bts ! j)) \<and>
            j < length (replicate (n_batches C) (0::real)) \<and>
            j < length (replicate (n_batches C) (0::real))"
      by simp
    from solve_batches_all_converged [OF this]
    obtain int_e int_s int_occs cs where
      run: "solve_batches L C bts [0..<n_batches C] ?acc0 = Inr (int_e, int_s, int_occs, cs)"
      by (metis prod_cases4)
    from solve_batches_Inr_aux [OF run] have occs: "int_occs = ?occs"
      and lens: "length int_e = n_batches C" "length int_s = n_batches C"
      by simp_all
    from eh sh lens have "set_row (e_hist s) i int_e = Inr ((e_hist s)[i := int_e])"
        "set_row (s_hist s) i int_s = Inr ((s_hist s)[i := int_s])"
      by (simp_all add: set_row_fits)
    with round run occs mean show ?thesis by simp
  qed
  have fails: "sqd_round L C i s = Inl e \<and> sqd_loop L C (i # post) s = Inl e"
    if j: "j < n_batches C" and bad: "solve_one L C (bts ! j) = Inl e"
      and before: "\<forall>k < j. converged (solve_one L C (bts ! k))" for j e
  proof -
    from j have split: "[0..<n_batches C] = [0..<j] @ j # [Suc j..<n_batches C]"
      by (rule upt_split_at)
    from before j len
    have pre: "\<forall>k \<in> set [0..<j]. k < length bts \<and> converged (solve_one L C (bts ! k)) \<and>
            k < length (replicate (n_batches C) (0::real)) \<and>
            k < length (replicate (n_batches C) (0::real))"
      by simp
    from j len have "j < length bts" by simp
    from solve_batches_first_failure [OF this bad pre]
    have "solve_batches L C bts [0..<n_batches C] ?acc0 = Inl e"
      unfolding split .
    with round have "sqd_round L C i s = Inl e" by simp
    then show ?thesis by simp
  qed
  from proceeds all_ok fails show ?thesis by blast
qed

theorem round_needs_every_batch_solved_witness:
  "recovery_stage ex_library_fail ex_config (init_state ex_config ex_matrix ex_probs 0) =
     Inr ((ex_matrix, ex_probs), 0) \<and>
   postselect_and_subsample ex_library_fail ex_matrix ex_probs
     (num_elec_a ex_config) (num_elec_b ex_config) (samples_per_batch ex_config)
     (n_batches ex_config) 0 = Inr ([[ex_r1], [ex_r2]], 2) \<and>
   n_batches ex_config \<le> length [[ex_r1], [ex_r2]] \<and>
   converged (solve_one ex_library_fail ex_config [ex_r1]) \<and>
   solve_one ex_library_fail ex_config [ex_r2] = Inl EigensolveNonConvergence \<and>
   sqd_round ex_library_fail ex_config 0 (init_state ex_config ex_matrix ex_probs 0) =
     Inl EigensolveNonConvergence \<and>
   sqd_round ex_library ex_config 0 (init_state ex_config ex_matrix ex_probs 0) =
     Inr ex_round0 \<and>
   converged (solve_one ex_library ex_config [ex_r1]) \<and>
   converged (solve_one ex_library ex_config [ex_r2]) \<and>
   avg_occupancy ex_round0 = Some [(1 + 0) / 2, (0 + 1) / 2]"
proof -
  let ?s = "init_state ex_config ex_matrix ex_probs (0::nat)"
  have rec: "recovery_stage ex_library_fail ex_config ?s = Inr ((ex_matrix, ex_probs), 0)"
    by code_simp
  have sel: "postselect_and_subsample ex_library_fail ex_matrix ex_probs
     (num_elec_a ex_config) (num_elec_b ex_config) (samples_per_batch ex_config)
     (n_batches ex_config) 0 = Inr ([[ex_r1], [ex_r2]], 2)"
    by code_simp
  have len: "n_batches ex_config \<le> length [[ex_r1], [ex_r2]]"
    by code_simp
  have one: "converged (solve_one ex_library_fail ex_config [ex_r1])"
    by code_simp
  have two: "solve_one ex_library_fail ex_config [ex_r2] = Inl EigensolveNonConvergence"
    by code_simp
  have n: "1 < n_batches ex_config" "n_batches ex_config = 2"
    by code_simp+
  have before: "\<forall>k < 1. converged (solve_one ex_library_fail ex_config ([[ex_r1], [ex_r2]] ! k))"
    using one by simp
  from round_needs_every_batch_solved [OF rec sel len, of 0 "[]", THEN conjunct2, THEN conjunct2,
         rule_format, of 1 EigensolveNonConvergence] n two before
  have fails: "sqd_round ex_library_fail ex_config 0 ?s = Inl EigensolveNonConvergence"
    by simp
  have rec': "recovery_stage ex_library ex_config ?s = Inr ((ex_matrix, ex_probs), 0)"
    by code_simp
  have sel': "postselect_and_subsample ex_library ex_matrix ex_probs
     (num_elec_a ex_config) (num_elec_b ex_config) (samples_per_batch ex_config)
     (n_batches ex_config) 0 = Inr ([[ex_r1], [ex_r2]], 2)"
    by code_simp
  have good: "sqd_round ex_library ex_config 0 ?s = Inr ex_round0"
    by code_simp
  note all = round_needs_every_batch_solved [OF rec' sel' len, of 0, THEN conjunct1,
         rule_format, OF good]
  from all [THEN conjunct1, rule_format, of 0] all [THEN conjunct1, rule_format, of 1] n
  have conv: "converged (solve_one ex_library ex_config [ex_r1])"
      "converged (solve_one ex_library ex_config [ex_r2])"
    by simp_all
  have occs: "occupancy_of (solve_one ex_library ex_config [ex_r1]) = [1, 0]"
      "occupancy_of (solve_one ex_library ex_config [ex_r2]) = [0, 1]"
    by code_simp+
  have two_batches: "[0..<n_batches ex_config] = [0, 1]"
    by code_simp
  from all [THEN conjunct2] obtain occ where
    occ: "avg_occupancy ex_round0 = Some occ" and
    mean: "\<forall>k < length occ. occ ! k =
       sum_list (map (\<lambda>j. occupancy_of (solve_one ex_library ex_config
                                ([[ex_r1], [ex_r2]] ! j)) ! k) [0..<n_batches ex_config])
         / real (n_batches ex_config)"
    by blast
  have shape: "0 < length (e_hist ?s)" "length (e_hist ?s ! 0) = n_batches ex_config"
      "0 < length (s_hist ?s)" "length (s_hist ?s ! 0) = n_batches ex_config"
    by code_simp+
  have m: "mean_axis0 (map (\<lambda>j. occupancy_of (solve_one ex_library ex_config
                                ([[ex_r1], [ex_r2]] ! j))) [0..<n_batches ex_config]) =
      Inr [1 / 2, 1 / 2]"
    unfolding two_batches using occs by (simp add: mean_axis0_def)
  from all [THEN conjunct1] have conv': "\<forall>j < n_batches ex_config.
      converged (solve_one ex_library ex_config ([[ex_r1], [ex_r2]] ! j))" .
  from round_needs_every_batch_solved [OF rec' sel' len, of 0, THEN conjunct2, THEN conjunct1,
         rule_format, OF conjI [OF conv' conjI [OF m]]] shape good
  have "avg_occupancy ex_round0 = Some [1 / 2, 1 / 2]"
    by auto
  with occ have occ': "occ = [1 / 2, 1 / 2]" by simp
  from mean [rule_format, of 0] mean [rule_format, of 1] occs n(2)
  have "occ ! 0 = (1 + 0) / 2 \<and> occ ! 1 = (0 + 1) / 2"
    unfolding two_batches occ' by simp
  with occ occ' have avg: "avg_occupancy ex_round0 = Some [(1 + 0) / 2, (0 + 1) / 2]"
    by simp
  from rec sel len one two fails good conv avg show ?thesis by simp
qed

text \<open>
  C1 as stated, that a round proceeds on the batches that converged, fails on the instance:
  the first batch of round 0 is solved, the second is not, and the run ends with the second
  batch's error.
\<close>

theorem one_failed_batch_aborts_run:
  "postselect_and_subsample ex_library_fail ex_matrix ex_probs
     (num_elec_a ex_config) (num_elec_b ex_config) (samples_per_batch ex_config)
     (n_batches ex_config) 0 = Inr ([[ex_r1], [ex_r2]], 2) \<and>
   solve_one ex_library_fail ex_config [ex_r1] = Inr (- 1, [1], [1, 0], 0) \<and>
   solve_one ex_library_fail ex_config [ex_r2] = Inl EigensolveNonConvergence \<and>
   run_sqd ex_library_fail ex_config ex_matrix ex_probs 0 = Inl EigensolveNonConvergence"
  by code_simp

section \<open>The best batch of the final round\<close>

lemma argmin_least:
  "xs \<noteq> [] \<Longrightarrow>
     argmin xs < length xs \<and>
     (\<forall>j < length xs. xs ! argmin xs \<le> xs ! j) \<and>
     (\<forall>j < argmin xs. xs ! argmin xs < xs ! j)"
proof (induction xs rule: argmin.induct)
  case 1
  then show ?case by simp
next
  case (2 x)
  show ?case by simp
next
  case (3 x y ys)
  let ?k = "argmin (y # ys)"
  from 3 have ih: "?k < length (y # ys)"
      "\<forall>j < length (y # ys). (y # ys) ! ?k \<le> (y # ys) ! j"
      "\<forall>j < ?k. (y # ys) ! ?k < (y # ys) ! j"
    by simp_all
  show ?case
  proof (cases "x \<le> (y # ys) ! ?k")
    case True
    then have k0: "argmin (x # y # ys) = 0" by simp
    have "\<forall>j < length (x # y # ys). x \<le> (x # y # ys) ! j"
    proof (intro allI impI)
      fix j assume "j < length (x # y # ys)"
      then show "x \<le> (x # y # ys) ! j"
        using True ih(2) by (cases j) (auto intro: order_trans)
    qed
    with k0 show ?thesis by simp
  next
    case False
    then have kS: "argmin (x # y # ys) = Suc ?k" by simp
    have le: "\<forall>j < length (x # y # ys). (y # ys) ! ?k \<le> (x # y # ys) ! j"
    proof (intro allI impI)
      fix j assume "j < length (x # y # ys)"
      then show "(y # ys) ! ?k \<le> (x # y # ys) ! j"
        using False ih(2) by (cases j) auto
    qed
    have lt: "\<forall>j < Suc ?k. (y # ys) ! ?k < (x # y # ys) ! j"
    proof (intro allI impI)
      fix j assume "j < Suc ?k"
      then show "(y # ys) ! ?k < (x # y # ys) ! j"
        using False ih(3) by (cases j) auto
    qed
    from ih(1) le lt show ?thesis
      unfolding kS by simp
  qed
qed

lemma sqd_round_frame:
  assumes "sqd_round L C i s = Inr s'"
  shows "bitstring_matrix_full s' = bitstring_matrix_full s"
    and "probs_arr_full s' = probs_arr_full s"
    and "map length (e_hist s') = map length (e_hist s)"
    and "map length (s_hist s') = map length (s_hist s)"
  using assms by (auto elim!: sqd_round_Inr dest: set_row_Inr(2))

lemma sqd_loop_frame:
  "sqd_loop L C rounds s = Inr s' \<Longrightarrow>
     bitstring_matrix_full s' = bitstring_matrix_full s \<and>
     probs_arr_full s' = probs_arr_full s \<and>
     map length (e_hist s') = map length (e_hist s) \<and>
     map length (s_hist s') = map length (s_hist s)"
proof (induction rounds arbitrary: s)
  case Nil
  then show ?case by simp
next
  case (Cons i rounds)
  from Cons.prems obtain s1 where
    r: "sqd_round L C i s = Inr s1" and l: "sqd_loop L C rounds s1 = Inr s'"
    by (auto split: sum.splits)
  from Cons.IH [OF l] sqd_round_frame [OF r] show ?case by simp
qed

lemma run_sqd_last_round:
  assumes "run_sqd L C bs ps g = Inr s" and "0 < iterations C"
  obtains s0 where
    "sqd_loop L C [0..<iterations C - 1] (init_state C bs ps g) = Inr s0"
    "sqd_round L C (iterations C - 1) s0 = Inr s"
proof -
  from assms(2) have "[0..<iterations C] = [0..<iterations C - 1] @ [iterations C - 1]"
    by (metis Suc_pred' upt_Suc_append zero_le)
  with assms(1) show thesis
    by (auto simp: run_sqd_def sqd_loop_append split: sum.splits intro: that)
qed

text \<open>
  C4. After a run of at least one round with at least one batch, the state is that of the
  final round applied to the state the earlier rounds left; its batches are the ones
  postselection and subsampling returned in that final round, and the last row of the energy
  history holds their recorded energies
  (the solver's energy plus the nuclear repulsion). \<open>best_batch\<close> is the batch at the
  first index where that row is least, so its recorded energy is at most every other
  batch's, and it is the batch \<open>optimize_orbitals\<close> is called with.
\<close>

theorem best_batch_is_final_round_argmin:
  assumes run: "run_sqd L C bs ps g = Inr s"
    and it: "0 < iterations C" and nb: "0 < n_batches C"
  shows "\<exists>s0 m p g0 g1 bts.
      sqd_loop L C [0..<iterations C - 1] (init_state C bs ps g) = Inr s0 \<and>
      sqd_round L C (iterations C - 1) s0 = Inr s \<and>
      recovery_stage L C s0 = Inr ((m, p), g0) \<and>
      postselect_and_subsample L m p (num_elec_a C) (num_elec_b C)
        (samples_per_batch C) (n_batches C) g0 = Inr (bts, g1) \<and>
      batches s = Some bts \<and> n_batches C \<le> length bts \<and>
      length (last (e_hist s)) = n_batches C \<and>
      (\<forall>j < n_batches C.
         converged (solve_one L C (bts ! j)) \<and>
         last (e_hist s) ! j =
           energy_of (solve_one L C (bts ! j)) + nuclear_repulsion_energy C) \<and>
      argmin (last (e_hist s)) < n_batches C \<and>
      (\<forall>j < n_batches C. last (e_hist s) ! argmin (last (e_hist s)) \<le> last (e_hist s) ! j) \<and>
      (\<forall>j < argmin (last (e_hist s)).
         last (e_hist s) ! argmin (last (e_hist s)) < last (e_hist s) ! j) \<and>
      best_batch s = Inr (bts ! argmin (last (e_hist s))) \<and>
      orbital_optimization L C s =
        (case rng_random L (rng s) ((num_orbitals C)\<^sup>2) of
           (r, g') \<Rightarrow>
             (case optimize_orbitals L (bts ! argmin (last (e_hist s))) (hcore_rot C) (eri_rot C)
                     (map (\<lambda>x. (x - 1 / 2) * (1 / 100)) r) (open_shell C) (spin_sq C)
                     (num_iters C) (num_steps_grad C) (learning_rate C)
                     (max_davidson_cycles C) of
                Inl e \<Rightarrow> Inl e
              | Inr res \<Rightarrow> Inr (res, g')))"
proof -
  let ?k = "iterations C - 1"
  from run it obtain s0 where
    loop: "sqd_loop L C [0..<?k] (init_state C bs ps g) = Inr s0" and
    last_round: "sqd_round L C ?k s0 = Inr s"
    by (rule run_sqd_last_round)
  from sqd_loop_frame [OF loop]
  have shape: "map length (e_hist s0) = replicate (iterations C) (n_batches C)"
    by (simp add: init_state_def)
  from arg_cong [OF shape, of length] have hist: "length (e_hist s0) = iterations C"
    by simp
  from arg_cong [OF shape, of "\<lambda>ls. ls ! ?k"] hist it
  have rowlen: "length (e_hist s0 ! ?k) = n_batches C"
    by simp
  from last_round obtain m p g0 bts g1 int_e int_s int_occs cs occ e_hist' s_hist' where
    rec: "recovery_stage L C s0 = Inr ((m, p), g0)" and
    sel: "postselect_and_subsample L m p (num_elec_a C) (num_elec_b C)
       (samples_per_batch C) (n_batches C) g0 = Inr (bts, g1)" and
    solved: "solve_batches L C bts [0..<n_batches C]
       (replicate (n_batches C) 0, replicate (n_batches C) 0, [], []) =
         Inr (int_e, int_s, int_occs, cs)" and
    mean: "mean_axis0 int_occs = Inr occ" and
    wr: "set_row (e_hist s0) ?k int_e = Inr e_hist'" and
    ws: "set_row (s_hist s0) ?k int_s = Inr s_hist'" and
    s: "s = s0\<lparr> rng := g1, avg_occupancy := Some occ, batches := Some bts,
            e_hist := e_hist', s_hist := s_hist',
            occupancy_hist := occupancy_hist s0 @ [occ] \<rparr>"
    by (rule sqd_round_Inr)
  from s have b: "batches s = Some bts" by simp
  from hist it have ne: "e_hist s0 \<noteq> []" by auto
  from solve_batches_Inr_aux [OF solved] have "length int_e = n_batches C"
    by simp
  with rowlen set_row_Inr(3) [OF wr] have "e_hist' = (e_hist s0)[?k := int_e]"
    by simp
  with s hist ne have row: "last (e_hist s) = int_e"
    by (simp add: last_list_update)
  from s hist it \<open>e_hist' = (e_hist s0)[?k := int_e]\<close> have ne': "e_hist s \<noteq> []" by auto
  from solve_batches_Inr_aux [OF solved]
  have inb: "\<forall>j < n_batches C. j < length bts"
    and conv: "\<forall>j < n_batches C. converged (solve_one L C (bts ! j))"
    and lene: "length int_e = n_batches C"
    and en: "\<forall>j < n_batches C. int_e ! j =
        energy_of (solve_one L C (bts ! j)) + nuclear_repulsion_energy C"
    by simp_all
  from inb nb have len: "n_batches C \<le> length bts"
    by (cases "n_batches C") (auto simp: less_Suc_eq_le dest: spec [of _ "n_batches C - 1"])
  from lene nb have "int_e \<noteq> []" by auto
  from argmin_least [OF this] lene
  have am: "argmin int_e < n_batches C"
      "\<forall>j < n_batches C. int_e ! argmin int_e \<le> int_e ! j"
      "\<forall>j < argmin int_e. int_e ! argmin int_e < int_e ! j"
    by simp_all
  from b ne' row \<open>int_e \<noteq> []\<close> am(1) len
  have best: "best_batch s = Inr (bts ! argmin (last (e_hist s)))"
    by (simp add: best_batch_def Let_def)
  have oo: "orbital_optimization L C s =
        (case rng_random L (rng s) ((num_orbitals C)\<^sup>2) of
           (r, g') \<Rightarrow>
             (case optimize_orbitals L (bts ! argmin (last (e_hist s))) (hcore_rot C) (eri_rot C)
                     (map (\<lambda>x. (x - 1 / 2) * (1 / 100)) r) (open_shell C) (spin_sq C)
                     (num_iters C) (num_steps_grad C) (learning_rate C)
                     (max_davidson_cycles C) of
                Inl e \<Rightarrow> Inl e
              | Inr res \<Rightarrow> Inr (res, g')))"
    by (simp add: orbital_optimization_def best)
  from loop last_round rec sel b len lene conv en am best oo show ?thesis
    unfolding row by blast
qed

theorem best_batch_is_final_round_argmin_witness:
  "run_sqd ex_library ex_config ex_matrix ex_probs 0 = Inr ex_final \<and>
   0 < iterations ex_config \<and> 0 < n_batches ex_config \<and>
   last (e_hist ex_final) = [0, - 1] \<and>
   argmin (last (e_hist ex_final)) = 1 \<and>
   best_batch ex_final = Inr [ex_r2] \<and>
   orbital_optimization ex_library ex_config ex_final =
     Inr ((- 3, [1 / 400, 1 / 400, 1 / 400, 1 / 400], [1 / 2, 1 / 2]), 9)"
proof -
  have run: "run_sqd ex_library ex_config ex_matrix ex_probs 0 = Inr ex_final"
    by code_simp
  have it: "0 < iterations ex_config" and nb: "0 < n_batches ex_config"
    by code_simp+
  have row: "last (e_hist ex_final) = [0, - 1]"
    by code_simp
  have am: "argmin (last (e_hist ex_final)) = 1"
    by code_simp
  have bts: "batches ex_final = Some [[ex_r1], [ex_r2]]"
    by code_simp
  have oo: "orbital_optimization ex_library ex_config ex_final =
     Inr ((- 3, [1 / 400, 1 / 400, 1 / 400, 1 / 400], [1 / 2, 1 / 2]), 9)"
    by code_simp
  from best_batch_is_final_round_argmin [OF run it nb] bts am
  have "best_batch ex_final = Inr [ex_r2]"
    by auto
  with run it nb row am oo show ?thesis by simp
qed

section \<open>Runs in processes that differ in their hidden part\<close>

text \<open>
  A call whose outcome the objects determine returns the same in two processes with the
  same objects, and leaves the same objects.
\<close>

lemma hidden_freeD:
  "hidden_free f \<Longrightarrow> heap w = heap w' \<Longrightarrow> outcome (f w) = outcome (f w')"
  unfolding hidden_free_def by blast

lemma hidden_freeI:
  assumes "\<And>w w'. heap w = heap w' \<Longrightarrow> outcome (f w) = outcome (f w')"
  shows "hidden_free f"
  unfolding hidden_free_def using assms by blast

lemma hidden_free_cases:
  assumes "hidden_free f" and "heap w = heap w'"
  obtains (fails) e where "f w = Inl e" and "f w' = Inl e"
  | (returns) r w1 w1' where "f w = Inr (r, w1)" and "f w' = Inr (r, w1')"
      and "heap w1 = heap w1'"
proof -
  from assms have same: "outcome (f w) = outcome (f w')"
    by (rule hidden_freeD)
  show thesis
  proof (cases "f w")
    case (Inl e)
    with same have "f w' = Inl e"
      by (cases "f w'") (simp_all add: outcome_def)
    with Inl show thesis by (rule fails)
  next
    case (Inr x)
    obtain r w1 where x: "x = (r, w1)" by (cases x) auto
    from same Inr x obtain w1' where "f w' = Inr (r, w1')" and "heap w1 = heap w1'"
      by (cases "f w'") (auto simp: outcome_def)
    with Inr x show thesis by (auto intro: returns)
  qed
qed

lemma hidden_free_total:
  assumes "hidden_free (\<lambda>w. Inr (f w) :: error + _)" and "heap w = heap w'"
  obtains r w1 w1' where "f w = (r, w1)" and "f w' = (r, w1')" and "heap w1 = heap w1'"
proof -
  from hidden_freeD [OF assms] have "map_prod id heap (f w) = map_prod id heap (f w')"
    by (simp add: outcome_def)
  then show thesis
    by (cases "f w"; cases "f w'") (simp add: that)
qed

lemma outcome_cases:
  assumes "outcome x = outcome y"
  obtains (fails) e where "x = Inl e" and "y = Inl e"
  | (returns) r w1 w1' where "x = Inr (r, w1)" and "y = Inr (r, w1')" and "heap w1 = heap w1'"
proof (cases x)
  case (Inl e)
  with assms have "y = Inl e"
    by (cases y) (simp_all add: outcome_def)
  with Inl show thesis by (rule fails)
next
  case (Inr v)
  obtain r w1 where v: "v = (r, w1)" by (cases v) auto
  from assms Inr v obtain w1' where "y = Inr (r, w1')" and "heap w1 = heap w1'"
    by (cases y) (auto simp: outcome_def)
  with Inr v show thesis by (auto intro: returns)
qed

lemma object_at_heap: "heap w = heap w' \<Longrightarrow> object_at w r = object_at w' r"
  by (simp add: object_at_def)

lemma reproducibleD:
  assumes "reproducible L"
  shows "hidden_free (\<lambda>w. Inr (default_rng_h L (Some seed) w) :: error + _)"
    and "hidden_free (\<lambda>w. Inr (random_h L g n w) :: error + _)"
    and "hidden_free (rotate_integrals_h L hcore eri k)"
    and "hidden_free (generate_counts_uniform_h L n bits (Some g))"
    and "hidden_free (counts_to_arrays_h L c)"
    and "hidden_free (recover_configurations_h L m p occ a b (Some g))"
    and "hidden_free (postselect_and_subsample_h L m p a b spb nb (Some g))"
    and "hidden_free (solve_fermion_h L bt h e os ss mc)"
  using assms by (simp_all add: reproducible_def)

lemma view_eqD:
  assumes "view s = view t"
  shows "heap (process s) = heap (process t)"
    and "bitstring_matrix_full_h s = bitstring_matrix_full_h t"
    and "probs_arr_full_h s = probs_arr_full_h t"
    and "rng_h s = rng_h t"
    and "avg_occupancy_h s = avg_occupancy_h t"
    and "e_hist_h s = e_hist_h t"
    and "s_hist_h s = s_hist_h t"
    and "occupancy_hist_h s = occupancy_hist_h t"
  using assms by (simp_all add: view_def)

lemma view_cases:
  assumes "map_sum id view x = map_sum id view y"
  obtains (fails) e where "x = Inl e" and "y = Inl e"
  | (returns) s t where "x = Inr s" and "y = Inr t" and "view s = view t"
  using assms by (cases x; cases y) auto

lemma cells_view_cases:
  assumes "map_sum id (map_prod id view) x = map_sum id (map_prod id view) y"
  obtains (fails) e where "x = Inl e" and "y = Inl e"
  | (returns) C s t where "x = Inr (C, s)" and "y = Inr (C, t)" and "view s = view t"
  using assms by (cases x; cases y) auto

lemma recovery_stage_h_sim:
  assumes "reproducible L" and "view s = view t"
  shows "outcome (recovery_stage_h L C s) = outcome (recovery_stage_h L C t)"
proof (cases "avg_occupancy_h t")
  case None
  with view_eqD [OF assms(2)] show ?thesis
    by (simp add: recovery_stage_h_def outcome_def)
next
  case (Some occ)
  from hidden_freeD [OF reproducibleD(6) [OF assms(1)] view_eqD(1) [OF assms(2)]]
  have "outcome (recover_configurations_h L (bitstring_matrix_full_h t) (probs_arr_full_h t) occ
                   (num_elec_a C) (num_elec_b C) (Some (rng_h t)) (process s)) =
        outcome (recover_configurations_h L (bitstring_matrix_full_h t) (probs_arr_full_h t) occ
                   (num_elec_a C) (num_elec_b C) (Some (rng_h t)) (process t))" .
  with Some view_eqD(2-5) [OF assms(2)] show ?thesis
    by (simp add: recovery_stage_h_def)
qed

lemma solve_batches_h_sim:
  assumes "reproducible L"
  shows "heap w = heap w' \<Longrightarrow>
    outcome (solve_batches_h L C bts js acc w) = outcome (solve_batches_h L C bts js acc w')"
proof (induction js arbitrary: acc w w')
  case Nil
  then show ?case by (simp add: outcome_def)
next
  case (Cons j js)
  obtain int_e int_s int_occs cs where acc: "acc = (int_e, int_s, int_occs, cs)"
    by (cases acc) auto
  show ?case
  proof (cases "length bts \<le> j")
    case True
    then show ?thesis by (simp add: acc)
  next
    case False
    from reproducibleD(8) [OF assms] Cons.prems show ?thesis
    proof (cases rule: hidden_free_cases
        [where f = "solve_fermion_h L (bts ! j) (hcore_rot C) (eri_rot C) (open_shell C)
           (spin_sq C) (max_davidson_cycles C)"])
      case (fails e)
      with False show ?thesis by (simp add: acc)
    next
      case (returns r w1 w1')
      obtain en co oc sp where r: "r = (en, co, oc, sp)" by (cases r) auto
      from returns False r Cons.IH [OF returns(3)] show ?thesis
        by (simp add: acc outcome_def)
    qed
  qed
qed

lemma round_tail_h_sim:
  assumes rep: "reproducible L" and v: "view s = view t" and h: "heap w = heap w'"
  shows "map_sum id view (round_tail_h L C i s m p w) =
         map_sum id view (round_tail_h L C i t m p w')"
proof -
  let ?post = "postselect_and_subsample_h L m p (num_elec_a C) (num_elec_b C)
                 (samples_per_batch C) (n_batches C) (Some (rng_h t))"
  let ?acc = "(replicate (n_batches C) (0::real), replicate (n_batches C) (0::real),
               [] :: occupancy list, [] :: real list list)"
  note names = view_eqD(2-8) [OF v]
  from hidden_freeD [OF reproducibleD(7) [OF rep] h]
  have "outcome (?post w) = outcome (?post w')" .
  then show ?thesis
  proof (cases rule: outcome_cases)
    case (fails e)
    with names show ?thesis by (simp add: round_tail_h_def)
  next
    case post: (returns bts w1 w1')
    from solve_batches_h_sim [OF rep post(3)]
    have "outcome (solve_batches_h L C bts [0..<n_batches C] ?acc w1) =
          outcome (solve_batches_h L C bts [0..<n_batches C] ?acc w1')" .
    then show ?thesis
    proof (cases rule: outcome_cases)
      case (fails e)
      with post names show ?thesis by (simp add: round_tail_h_def)
    next
      case solved: (returns acc w2 w2')
      obtain int_e int_s int_occs cs where acc: "acc = (int_e, int_s, int_occs, cs)"
        by (cases acc) auto
      from post solved acc names view_eqD(1) [OF v] v show ?thesis
        by (simp add: round_tail_h_def view_def split: sum.splits)
    qed
  qed
qed

lemma sqd_round_h_sim:
  assumes rep: "reproducible L" and v: "view s = view t"
  shows "map_sum id view (sqd_round_h L C i s) = map_sum id view (sqd_round_h L C i t)"
  using recovery_stage_h_sim [OF rep v, of C]
proof (cases rule: outcome_cases)
  case (fails e)
  then show ?thesis by (simp add: sqd_round_h_def)
next
  case (returns r w1 w1')
  obtain m p where r: "r = (m, p)" by (cases r) auto
  from returns r round_tail_h_sim [OF rep v returns(3)] show ?thesis
    by (simp add: sqd_round_h_def)
qed

lemma sqd_loop_h_sim:
  assumes rep: "reproducible L"
  shows "view s = view t \<Longrightarrow>
    map_sum id view (sqd_loop_h L C rounds s) = map_sum id view (sqd_loop_h L C rounds t)"
proof (induction rounds arbitrary: s t)
  case Nil
  then show ?case by simp
next
  case (Cons i rounds)
  from sqd_round_h_sim [OF rep Cons.prems, of C i] show ?case
  proof (cases rule: view_cases)
    case (fails e)
    then show ?thesis by simp
  next
    case (returns s1 t1)
    with Cons.IH [OF returns(3)] show ?thesis by simp
  qed
qed

lemma stage_arrays_sim:
  assumes rep: "reproducible L" and v: "view s = view t"
  shows "stage_arrays L C s = stage_arrays L C t"
  using recovery_stage_h_sim [OF rep v, of C]
proof (cases rule: outcome_cases)
  case (fails e)
  then show ?thesis by (simp add: stage_arrays_def)
next
  case rec: (returns r w1 w1')
  obtain m p where r: "r = (m, p)" by (cases r) auto
  from hidden_freeD [OF reproducibleD(7) [OF rep] rec(3)]
  have "outcome (postselect_and_subsample_h L m p (num_elec_a C) (num_elec_b C)
                   (samples_per_batch C) (n_batches C) (Some (rng_h t)) w1) =
        outcome (postselect_and_subsample_h L m p (num_elec_a C) (num_elec_b C)
                   (samples_per_batch C) (n_batches C) (Some (rng_h t)) w1')" .
  then show ?thesis
  proof (cases rule: outcome_cases)
    case (fails e)
    with rec r view_eqD(4) [OF v] show ?thesis by (simp add: stage_arrays_def)
  next
    case post: (returns bts w2 w2')
    from rec(3) post(3) have "object_at w1 m = object_at w1' m"
        "object_at w1 p = object_at w1' p" "map (object_at w2) bts = map (object_at w2') bts"
      by (simp_all add: object_at_def)
    with rec r post view_eqD(4) [OF v] show ?thesis by (simp add: stage_arrays_def)
  qed
qed

lemma rotation_cell_sim:
  assumes rep: "reproducible L" and h: "heap w = heap w'"
  shows "outcome (rotation_cell L C hcore eri seed w) =
         outcome (rotation_cell L C hcore eri seed w')"
proof -
  from reproducibleD(1) [OF rep] h obtain g w1 w1' where
    mk: "default_rng_h L (Some seed) w = (g, w1)" "default_rng_h L (Some seed) w' = (g, w1')"
    and h1: "heap w1 = heap w1'"
    by (rule hidden_free_total)
  from reproducibleD(2) [OF rep] h1 obtain r w2 w2' where
    dr: "random_h L g ((num_orbitals C)\<^sup>2) w1 = (r, w2)"
      "random_h L g ((num_orbitals C)\<^sup>2) w1' = (r, w2')"
    and h2: "heap w2 = heap w2'"
    by (rule hidden_free_total)
  from hidden_freeD [OF reproducibleD(3) [OF rep] h2]
  have "outcome (rotate_integrals_h L hcore eri (map (\<lambda>x. (x - 1 / 2) * (1 / 2)) r) w2) =
        outcome (rotate_integrals_h L hcore eri (map (\<lambda>x. (x - 1 / 2) * (1 / 2)) r) w2')" .
  then show ?thesis
  proof (cases rule: outcome_cases)
    case (fails e)
    with mk dr show ?thesis by (simp add: rotation_cell_def)
  next
    case (returns ints w3 w3')
    obtain hr er where "ints = (hr, er)" by (cases ints) auto
    with returns mk dr show ?thesis by (simp add: rotation_cell_def outcome_def)
  qed
qed

lemma sampling_cell_sim:
  assumes rep: "reproducible L" and h: "heap w = heap w'"
  shows "outcome (sampling_cell L C g w) = outcome (sampling_cell L C g w')"
  using hidden_freeD [OF reproducibleD(4) [OF rep] h, of 10000 "num_orbitals C * 2" g]
proof (cases rule: outcome_cases)
  case (fails e)
  then show ?thesis by (simp add: sampling_cell_def)
next
  case (returns c w1 w1')
  with hidden_freeD [OF reproducibleD(5) [OF rep] returns(3), of c] show ?thesis
    by (simp add: sampling_cell_def)
qed

lemma cells_h_sim:
  assumes rep: "reproducible L" and h: "heap w = heap w'"
  shows "map_sum id (map_prod id view) (cells_h L C hcore eri seed rounds w) =
         map_sum id (map_prod id view) (cells_h L C hcore eri seed rounds w')"
  using rotation_cell_sim [OF rep h, of C hcore eri seed]
proof (cases rule: outcome_cases)
  case (fails e)
  then show ?thesis by (simp add: cells_h_def)
next
  case rot: (returns r w1 w1')
  obtain C' g where r: "r = (C', g)" by (cases r) auto
  from sampling_cell_sim [OF rep rot(3), of C' g] show ?thesis
  proof (cases rule: outcome_cases)
    case (fails e)
    with rot r show ?thesis by (simp add: cells_h_def)
  next
    case smp: (returns arrs w2 w2')
    obtain bs ps where arrs: "arrs = (bs, ps)" by (cases arrs) auto
    from smp(3) have "view (init_state_h C' bs ps g w2) = view (init_state_h C' bs ps g w2')"
      by (simp add: view_def init_state_h_def)
    from sqd_loop_h_sim [OF rep this, of C' rounds] show ?thesis
    proof (cases rule: view_cases)
      case (fails e)
      with rot r smp arrs show ?thesis by (simp add: cells_h_def)
    next
      case (returns s t)
      with rot r smp arrs show ?thesis by (simp add: cells_h_def)
    qed
  qed
qed

text \<open>The library of the instance is reproducible.\<close>

lemma heap_ex_advance:
  "heap (ex_advance (Some r) k w) = (heap w)[r := Generator (ex_source (Some r) w + k)]"
  "heap (ex_advance None k w) = heap w"
  by (simp_all add: ex_advance_def)

lemma ex_source_heap:
  "heap w = heap w' \<Longrightarrow> ex_source (Some r) w = ex_source (Some r) w'"
  by (simp add: ex_source_def object_at_def)

lemma ex_default_rng_hidden_free: "hidden_free (\<lambda>w. Inr (ex_default_rng (Some seed) w) :: error + _)"
  by (rule hidden_freeI) (simp add: outcome_def ex_default_rng_def)

lemma ex_random_hidden_free: "hidden_free (\<lambda>w. Inr (ex_random g n w) :: error + _)"
proof (rule hidden_freeI)
  fix w w' :: "(nat, nat) world"
  assume h: "heap w = heap w'"
  from ex_source_heap [OF h, of g] h
  show "outcome (Inr (ex_random g n w)) = outcome (Inr (ex_random g n w'))"
    by (simp add: outcome_def ex_random_def heap_ex_advance)
qed

lemma ex_rotate_integrals_hidden_free: "hidden_free (ex_rotate_integrals hcore eri k)"
  by (rule hidden_freeI) (simp add: outcome_def ex_rotate_integrals_def)

lemma ex_generate_counts_uniform_hidden_free: "hidden_free (ex_generate_counts_uniform n bits (Some g))"
proof (rule hidden_freeI)
  fix w w' :: "(nat, nat) world"
  assume h: "heap w = heap w'"
  from ex_source_heap [OF h, of g] h
  show "outcome (ex_generate_counts_uniform n bits (Some g) w) =
        outcome (ex_generate_counts_uniform n bits (Some g) w')"
    by (simp add: outcome_def ex_generate_counts_uniform_def heap_ex_advance)
qed

lemma ex_counts_to_arrays_hidden_free: "hidden_free (ex_counts_to_arrays c)"
  by (rule hidden_freeI) (simp add: outcome_def ex_counts_to_arrays_def ex_new_def)

lemma ex_recover_configurations_hidden_free: "hidden_free (ex_recover_configurations m p occ a b (Some g))"
proof (rule hidden_freeI)
  fix w w' :: "(nat, nat) world"
  assume h: "heap w = heap w'"
  from ex_source_heap [OF h, of g] object_at_heap [OF h] h
  show "outcome (ex_recover_configurations m p occ a b (Some g) w) =
        outcome (ex_recover_configurations m p occ a b (Some g) w')"
    by (simp add: outcome_def ex_recover_configurations_def ex_new_def
          heap_ex_advance split: option.splits object.splits)
qed

lemma ex_postselect_and_subsample_hidden_free: "hidden_free (ex_postselect_and_subsample m p a b spb nb (Some g))"
proof (rule hidden_freeI)
  fix w w' :: "(nat, nat) world"
  assume h: "heap w = heap w'"
  from ex_source_heap [OF h, of g] object_at_heap [OF h] h
  show "outcome (ex_postselect_and_subsample m p a b spb nb (Some g) w) =
        outcome (ex_postselect_and_subsample m p a b spb nb (Some g) w')"
    by (simp add: outcome_def ex_postselect_and_subsample_def ex_new_def
          heap_ex_advance Let_def split: option.splits object.splits)
qed

lemma ex_solve_fermion_hidden_free: "hidden_free (ex_solve_fermion b h e os ss mc)"
proof (rule hidden_freeI)
  fix w w' :: "(nat, nat) world"
  assume h: "heap w = heap w'"
  from object_at_heap [OF h] h
  show "outcome (ex_solve_fermion b h e os ss mc w) =
        outcome (ex_solve_fermion b h e os ss mc w')"
    by (simp add: outcome_def ex_solve_fermion_def
          split: option.splits object.splits sum.splits)
qed

lemma ex_library_h_reproducible: "reproducible ex_library_h"
  unfolding reproducible_def ex_library_h_def
  by (simp add: ex_default_rng_hidden_free ex_random_hidden_free ex_rotate_integrals_hidden_free ex_generate_counts_uniform_hidden_free ex_counts_to_arrays_hidden_free ex_recover_configurations_hidden_free ex_postselect_and_subsample_hidden_free ex_solve_fermion_hidden_free)

text \<open>
  C7. Two runs of the cells with the same seed and the same settings, in processes that hold
  the same objects and whose hidden parts may differ, with a library whose calls are
  reproducible when they are handed a generator: after any rounds the two runs have ended
  with the same error, or they have left the same objects and the same values of all names
  of the loop's cell (the raw samples, the state of the generator, the recovered arrays, the
  batches, the occupancy estimate and the histories), and in the round that follows the
  bitstring matrix and the probability array after recovery and the batches after
  postselection and subsampling are the same; with \<open>rounds = [0..<k]\<close> that is
  round \<open>k\<close> of the loop. The same holds of two runs of the loop alone that start
  with the same raw samples, generator and names, whatever produced them. The notebook hands
  the generator it seeded to every call that draws; of a call that is handed none, nothing
  is assumed.
\<close>

theorem same_seed_same_batches:
  assumes "reproducible L" and "heap w' = heap w"
  shows "map_sum id (map_prod id view) (cells_h L C hcore eri seed rounds w') =
         map_sum id (map_prod id view) (cells_h L C hcore eri seed rounds w) \<and>
         next_stage_arrays L (cells_h L C hcore eri seed rounds w') =
         next_stage_arrays L (cells_h L C hcore eri seed rounds w) \<and>
         (view t = view s \<longrightarrow>
            map_sum id view (sqd_loop_h L C rounds t) =
            map_sum id view (sqd_loop_h L C rounds s) \<and>
            next_stage_arrays L (map_sum id (Pair C) (sqd_loop_h L C rounds t)) =
            next_stage_arrays L (map_sum id (Pair C) (sqd_loop_h L C rounds s)))"
proof -
  note run = cells_h_sim [OF assms, of C hcore eri seed rounds]
  from run have next_arrays:
    "next_stage_arrays L (cells_h L C hcore eri seed rounds w') =
     next_stage_arrays L (cells_h L C hcore eri seed rounds w)"
  proof (cases rule: cells_view_cases)
    case (fails e)
    then show ?thesis by simp
  next
    case (returns C' s1 t1)
    with stage_arrays_sim [OF assms(1) returns(3), of C'] show ?thesis
      by (simp add: next_stage_arrays_def)
  qed
  have loop: "map_sum id view (sqd_loop_h L C rounds t) =
            map_sum id view (sqd_loop_h L C rounds s) \<and>
            next_stage_arrays L (map_sum id (Pair C) (sqd_loop_h L C rounds t)) =
            next_stage_arrays L (map_sum id (Pair C) (sqd_loop_h L C rounds s))"
    if v: "view t = view s"
  proof -
    note l = sqd_loop_h_sim [OF assms(1) v, of C rounds]
    from l have "next_stage_arrays L (map_sum id (Pair C) (sqd_loop_h L C rounds t)) =
            next_stage_arrays L (map_sum id (Pair C) (sqd_loop_h L C rounds s))"
    proof (cases rule: view_cases)
      case (fails e)
      then show ?thesis by simp
    next
      case (returns t1 s1)
      with stage_arrays_sim [OF assms(1) returns(3), of C] show ?thesis
        by (simp add: next_stage_arrays_def)
    qed
    with l show ?thesis by simp
  qed
  from run next_arrays loop show ?thesis
    by (intro conjI impI) simp_all
qed

theorem same_seed_same_batches_witness:
  "heap (ex_world 5) = heap (ex_world 0) \<and> hidden (ex_world 5) \<noteq> hidden (ex_world 0) \<and>
   next_stage_arrays ex_library_h (cells_h ex_library_h ex_config [] [] 24 [] (ex_world 5)) =
     Inr ((Some (Bits [ex_r2, ex_r3, ex_r1]), Some (Reals [1 / 4, 1 / 4, 1 / 2])),
          [Some (Bits [ex_r1]), Some (Bits [ex_r2])]) \<and>
   next_stage_arrays ex_library_h (cells_h ex_library_h ex_config [] [] 24 [0] (ex_world 5)) =
     Inr ((Some (Bits [ex_r3, ex_r1, ex_r2]), Some (Reals [1 / 4, 1 / 2, 1 / 4])),
          [Some (Bits [ex_r1]), Some (Bits [ex_r2])]) \<and>
   view (ex_entry \<lparr> process := process ex_entry \<lparr> hidden := 5 \<rparr> \<rparr>) = view ex_entry \<and>
   map_sum id (\<lambda>s. map (object_at (process s)) (the (batches_h s)))
     (sqd_loop_h ex_library_h ex_config [0, 1]
        (ex_entry \<lparr> process := process ex_entry \<lparr> hidden := 5 \<rparr> \<rparr>)) =
     Inr [Some (Bits [ex_r1]), Some (Bits [ex_r2])]"
proof -
  let ?t = "ex_entry \<lparr> process := process ex_entry \<lparr> hidden := 5 \<rparr> \<rparr>"
  have h: "heap (ex_world 5) = heap (ex_world 0)"
    and x: "hidden (ex_world 5) \<noteq> hidden (ex_world 0)"
    by (simp_all add: ex_world_def)
  have a0: "next_stage_arrays ex_library_h
              (cells_h ex_library_h ex_config [] [] 24 [] (ex_world 0)) =
     Inr ((Some (Bits [ex_r2, ex_r3, ex_r1]), Some (Reals [1 / 4, 1 / 4, 1 / 2])),
          [Some (Bits [ex_r1]), Some (Bits [ex_r2])])"
    by code_simp
  have a1: "next_stage_arrays ex_library_h
              (cells_h ex_library_h ex_config [] [] 24 [0] (ex_world 0)) =
     Inr ((Some (Bits [ex_r3, ex_r1, ex_r2]), Some (Reals [1 / 4, 1 / 2, 1 / 4])),
          [Some (Bits [ex_r1]), Some (Bits [ex_r2])])"
    by code_simp
  have v: "view ?t = view ex_entry"
    by (simp add: view_def)
  have l: "map_sum id view (sqd_loop_h ex_library_h ex_config [0, 1] ex_entry) =
     Inr ([Generator 34, Bits [ex_r2, ex_r3, ex_r1], Reals [1 / 4, 1 / 4, 1 / 2],
           Bits [ex_r1], Bits [ex_r2], Bits [ex_r3, ex_r1, ex_r2], Reals [1 / 4, 1 / 2, 1 / 4],
           Bits [ex_r1], Bits [ex_r2]],
          (1, 2, 0), Some [1 / 2, 1 / 2], (Some 5, Some 6, Some [7, 8]),
          [[0, - 1], [0, - 1]], [[0, 0], [0, 0]], [[1 / 2, 1 / 2], [1 / 2, 1 / 2]])"
    by code_simp
  note thm0 = same_seed_same_batches [OF ex_library_h_reproducible h,
      of ex_config "[]" "[]" 24 "[]" ?t ex_entry]
  note thm1 = same_seed_same_batches [OF ex_library_h_reproducible h,
      of ex_config "[]" "[]" 24 "[0]" ?t ex_entry]
  note thm2 = same_seed_same_batches [OF ex_library_h_reproducible h,
      of ex_config "[]" "[]" 24 "[0, 1]" ?t ex_entry,
      THEN conjunct2, THEN conjunct2, rule_format, OF v, THEN conjunct1]
  from thm0 a0 have b0: "next_stage_arrays ex_library_h
              (cells_h ex_library_h ex_config [] [] 24 [] (ex_world 5)) =
     Inr ((Some (Bits [ex_r2, ex_r3, ex_r1]), Some (Reals [1 / 4, 1 / 4, 1 / 2])),
          [Some (Bits [ex_r1]), Some (Bits [ex_r2])])"
    by simp
  from thm1 a1 have b1: "next_stage_arrays ex_library_h
              (cells_h ex_library_h ex_config [] [] 24 [0] (ex_world 5)) =
     Inr ((Some (Bits [ex_r3, ex_r1, ex_r2]), Some (Reals [1 / 4, 1 / 2, 1 / 4])),
          [Some (Bits [ex_r1]), Some (Bits [ex_r2])])"
    by simp
  from thm2 l obtain s' where
    s': "sqd_loop_h ex_library_h ex_config [0, 1] ?t = Inr s'" and
    vs': "view s' =
      ([Generator 34, Bits [ex_r2, ex_r3, ex_r1], Reals [1 / 4, 1 / 4, 1 / 2],
           Bits [ex_r1], Bits [ex_r2], Bits [ex_r3, ex_r1, ex_r2], Reals [1 / 4, 1 / 2, 1 / 4],
           Bits [ex_r1], Bits [ex_r2]],
          (1, 2, 0), Some [1 / 2, 1 / 2], (Some 5, Some 6, Some [7, 8]),
          [[0, - 1], [0, - 1]], [[0, 0], [0, 0]], [[1 / 2, 1 / 2], [1 / 2, 1 / 2]])"
    by (cases "sqd_loop_h ex_library_h ex_config [0, 1] ?t") simp_all
  from vs' have "map (object_at (process s')) (the (batches_h s')) =
      [Some (Bits [ex_r1]), Some (Bits [ex_r2])]"
    by (simp add: view_def object_at_def)
  with s' have b2: "map_sum id (\<lambda>s. map (object_at (process s)) (the (batches_h s)))
     (sqd_loop_h ex_library_h ex_config [0, 1] ?t) =
     Inr [Some (Bits [ex_r1]), Some (Bits [ex_r2])]"
    by simp
  from h x b0 b1 v b2 show ?thesis
    by (intro conjI)
qed

text \<open>
  A generator made without a seed takes its state from the hidden part in the instance: the
  two processes of the instance get different generators.
\<close>

lemma unseeded_generator_reads_hidden:
  "outcome (Inr (default_rng_h ex_library_h None (ex_world 5)) :: error + _) =
     Inr (0, [Generator 5]) \<and>
   outcome (Inr (default_rng_h ex_library_h None (ex_world 0)) :: error + _) =
     Inr (0, [Generator 0]) \<and>
   \<not> hidden_free (\<lambda>w. Inr (default_rng_h ex_library_h None w) :: error + _)"
proof -
  have a: "outcome (Inr (default_rng_h ex_library_h None (ex_world 5)) :: error + _) =
     Inr (0, [Generator 5])"
    and b: "outcome (Inr (default_rng_h ex_library_h None (ex_world 0)) :: error + _) =
     Inr (0, [Generator 0])"
    by (simp_all add: outcome_def ex_library_h_def ex_default_rng_def ex_world_def)
  have "heap (ex_world 5) = heap (ex_world 0)"
    by (simp add: ex_world_def)
  from hidden_freeD [OF _ this, of "\<lambda>w. Inr (default_rng_h ex_library_h None w) :: error + _"]
    a b
  have "\<not> hidden_free (\<lambda>w. Inr (default_rng_h ex_library_h None w) :: error + _)"
    by auto
  with a b show ?thesis by simp
qed

section \<open>The raw samples are read and never written\<close>






lemma derives_new_arraysD:
  assumes "derives_new_arrays L"
  shows "recover_configurations_h L m p occ a b g w = Inr (res, w')
           \<Longrightarrow> unchanged_except (set_option g) w w'"
    and "postselect_and_subsample_h L m p a b spb nb g w = Inr (bts, w')
           \<Longrightarrow> unchanged_except (set_option g) w w'"
    and "solve_fermion_h L bt h e os ss mc w = Inr (sol, w') \<Longrightarrow> unchanged_except {} w w'"
proof -
  from assms have
    a: "\<forall>m p occ a b g w res w'.
          recover_configurations_h L m p occ a b g w = Inr (res, w')
            \<longrightarrow> unchanged_except (set_option g) w w'" and
    b: "\<forall>m p a b spb nb g w res w'.
          postselect_and_subsample_h L m p a b spb nb g w = Inr (res, w')
            \<longrightarrow> unchanged_except (set_option g) w w'" and
    c: "\<forall>b h e os ss mc w res w'.
          solve_fermion_h L b h e os ss mc w = Inr (res, w') \<longrightarrow> unchanged_except {} w w'"
    by (simp_all add: derives_new_arrays_def)
  from a show "recover_configurations_h L m p occ a b g w = Inr (res, w')
           \<Longrightarrow> unchanged_except (set_option g) w w'"
    by blast
  from b show "postselect_and_subsample_h L m p a b spb nb g w = Inr (bts, w')
           \<Longrightarrow> unchanged_except (set_option g) w w'"
    by blast
  from c show "solve_fermion_h L bt h e os ss mc w = Inr (sol, w') \<Longrightarrow> unchanged_except {} w w'"
    by blast
qed














text \<open>
  With the recovery that works in place the raw matrix is another after two rounds, and
  the recovered matrix is the raw object itself.
\<close>

lemma in_place_recovery_changes_raw_matrix:
  "map_sum id (\<lambda>s. (bitstring_matrix_full_h s, bs_mat_tmp_h s,
                      object_at (process s) (bitstring_matrix_full_h s)))
     (sqd_loop_h ex_library_in_place ex_config [0, 1] ex_entry) =
     Inr (1, Some 1, Some (Bits [ex_r3, ex_r1, ex_r2])) \<and>
   \<not> derives_new_arrays ex_library_in_place"
proof -
  have run: "map_sum id (\<lambda>s. (bitstring_matrix_full_h s, bs_mat_tmp_h s,
                      object_at (process s) (bitstring_matrix_full_h s)))
     (sqd_loop_h ex_library_in_place ex_config [0, 1] ex_entry) =
     Inr (1, Some 1, Some (Bits [ex_r3, ex_r1, ex_r2]))"
    by code_simp
  have call: "recover_configurations_h ex_library_in_place 1 2 [] 1 1 None (process ex_entry) =
      Inr ((1, 2), \<lparr> heap = [Generator 29, Bits [ex_r3, ex_r1, ex_r2],
                              Reals [1 / 4, 1 / 4, 1 / 2]], hidden = 0 \<rparr>)"
    by code_simp
  have "\<not> unchanged_except (set_option None) (process ex_entry)
          \<lparr> heap = [Generator 29, Bits [ex_r3, ex_r1, ex_r2],
                     Reals [1 / 4, 1 / 4, 1 / 2]], hidden = (0::nat) \<rparr>"
    by (auto simp: unchanged_except_def ex_entry_def init_state_h_def ex_r1_def ex_r2_def
          ex_r3_def intro!: exI [of _ 1])
  with derives_new_arraysD(1) [OF _ call] have "\<not> derives_new_arrays ex_library_in_place"
    by blast
  with run show ?thesis by simp
qed

end
